theory Spec2Isabelle
  imports Complex_Main "HOL-Library.Sublist"
begin

section \<open>Pose coaching engine: geometry and posture verification (utils.js)\<close>

text \<open>
  JavaScript numbers are modelled as real numbers: coordinates and angles are finite
  doubles, and rounding, overflow and NaN are outside this model; the range of
  \<open>calculateAngle\<close>, which depends on them, is settled on the binary64 model of the
  function given further down. Array indices are
  integers, so that a negative index is an input of the model. A landmark sequence is
  \<open>None\<close> when the JavaScript value is \<open>null\<close> or \<open>undefined\<close>, and a list of
  landmark objects with numeric \<open>x\<close> and \<open>y\<close> otherwise.
\<close>

record point =
  x :: real
  y :: real

type_synonym landmarks = "point list option"

datatype js_error = TypeError

subsection \<open>calculateAngle\<close>

definition calculateAngle :: "point \<Rightarrow> point \<Rightarrow> point \<Rightarrow> real" where
  "calculateAngle pointA pointB pointC =
     (let vectorBA = \<lparr>x = x pointA - x pointB, y = y pointA - y pointB\<rparr>;
          vectorBC = \<lparr>x = x pointC - x pointB, y = y pointC - y pointB\<rparr>;
          dotProduct = x vectorBA * x vectorBC + y vectorBA * y vectorBC;
          magnitudeBA = sqrt ((x vectorBA)\<^sup>2 + (y vectorBA)\<^sup>2);
          magnitudeBC = sqrt ((x vectorBC)\<^sup>2 + (y vectorBC)\<^sup>2)
      in if magnitudeBA = 0 \<or> magnitudeBC = 0 then 0
         else (let cosineAngle = dotProduct / (magnitudeBA * magnitudeBC);
                   clamped = max (- 1) (min 1 cosineAngle);
                   angleRadians = arccos clamped
               in angleRadians * (180 / pi)))"

subsection \<open>getLandmarkCoordinates\<close>

text \<open>
  The guard \<open>!landmarks || landmarkIndex >= landmarks.length\<close> answers the zero
  coordinate. Past the guard the element is read: an index below zero names no element,
  the read yields \<open>undefined\<close>, and taking \<open>.x\<close> of it raises a \<open>TypeError\<close>.
\<close>

definition getLandmarkCoordinates :: "landmarks \<Rightarrow> int \<Rightarrow> js_error + point" where
  "getLandmarkCoordinates lms landmarkIndex =
     (case lms of
        None \<Rightarrow> Inr \<lparr>x = 0, y = 0\<rparr>
      | Some l \<Rightarrow>
          if landmarkIndex \<ge> int (length l) then Inr \<lparr>x = 0, y = 0\<rparr>
          else if landmarkIndex < 0 then Inl TypeError
          else (let landmark = l ! nat landmarkIndex
                in Inr \<lparr>x = x landmark, y = y landmark\<rparr>))"

subsection \<open>verifyPosture\<close>

record angle_set =
  elbow_angle_left :: real
  elbow_angle_right :: real
  shoulder_hip_ankle_angle_left :: real
  shoulder_hip_ankle_angle_right :: real

definition zero_angles :: angle_set where
  "zero_angles = \<lparr>elbow_angle_left = 0, elbow_angle_right = 0,
     shoulder_hip_ankle_angle_left = 0, shoulder_hip_ankle_angle_right = 0\<rparr>"

text \<open>
  The body of \<open>verifyPosture\<close> runs inside \<open>try\<close>; the handler only logs. An
  exception therefore leaves the angle set as the assignments before it made it:
  \<open>try_read r caught continue\<close> goes on with the point read, or answers \<open>caught\<close>,
  the angles assigned so far, when the read raised.
\<close>

definition try_read :: "js_error + point \<Rightarrow> 'a \<Rightarrow> (point \<Rightarrow> 'a) \<Rightarrow> 'a" where
  "try_read r caught continue = (case r of Inl e \<Rightarrow> caught | Inr p \<Rightarrow> continue p)"

definition pushup_angles :: "landmarks \<Rightarrow> angle_set \<Rightarrow> angle_set" where
  "pushup_angles lms angles =
     try_read (getLandmarkCoordinates lms 11) angles (\<lambda>leftShoulder.
     try_read (getLandmarkCoordinates lms 13) angles (\<lambda>leftElbow.
     try_read (getLandmarkCoordinates lms 15) angles (\<lambda>leftWrist.
     let angles1 = angles\<lparr>elbow_angle_left := calculateAngle leftShoulder leftElbow leftWrist\<rparr> in
     try_read (getLandmarkCoordinates lms 12) angles1 (\<lambda>rightShoulder.
     try_read (getLandmarkCoordinates lms 14) angles1 (\<lambda>rightElbow.
     try_read (getLandmarkCoordinates lms 16) angles1 (\<lambda>rightWrist.
     angles1\<lparr>elbow_angle_right := calculateAngle rightShoulder rightElbow rightWrist\<rparr>))))))"

definition handstand_angles :: "landmarks \<Rightarrow> angle_set \<Rightarrow> angle_set" where
  "handstand_angles lms angles =
     try_read (getLandmarkCoordinates lms 11) angles (\<lambda>leftShoulder.
     try_read (getLandmarkCoordinates lms 23) angles (\<lambda>leftHip.
     try_read (getLandmarkCoordinates lms 27) angles (\<lambda>leftAnkle.
     let angles1 = angles\<lparr>shoulder_hip_ankle_angle_left :=
                     calculateAngle leftShoulder leftHip leftAnkle\<rparr> in
     try_read (getLandmarkCoordinates lms 12) angles1 (\<lambda>rightShoulder.
     try_read (getLandmarkCoordinates lms 24) angles1 (\<lambda>rightHip.
     try_read (getLandmarkCoordinates lms 28) angles1 (\<lambda>rightAnkle.
     let angles2 = angles1\<lparr>shoulder_hip_ankle_angle_right :=
                     calculateAngle rightShoulder rightHip rightAnkle\<rparr> in
     try_read (getLandmarkCoordinates lms 13) angles2 (\<lambda>leftElbow.
     try_read (getLandmarkCoordinates lms 15) angles2 (\<lambda>leftWrist.
     let angles3 = angles2\<lparr>elbow_angle_left :=
                     calculateAngle leftShoulder leftElbow leftWrist\<rparr> in
     try_read (getLandmarkCoordinates lms 14) angles3 (\<lambda>rightElbow.
     try_read (getLandmarkCoordinates lms 16) angles3 (\<lambda>rightWrist.
     angles3\<lparr>elbow_angle_right :=
       calculateAngle rightShoulder rightElbow rightWrist\<rparr>))))))))))"

definition verifyPosture :: "landmarks \<Rightarrow> string \<Rightarrow> angle_set" where
  "verifyPosture lms exerciseType =
     (let angles = zero_angles
      in case lms of
           None \<Rightarrow> angles
         | Some l \<Rightarrow>
             if length l = 0 then angles
             else if exerciseType = ''pushup'' then pushup_angles lms angles
             else if exerciseType = ''handstand'' then handstand_angles lms angles
             else angles)"

subsection \<open>loadReferenceData and checkPostureCorrectness\<close>

text \<open>
  Objects used as dictionaries are association lists in insertion order. The angle set
  handed to \<open>checkPostureCorrectness\<close> is the list \<open>Object.entries\<close> gives; the result
  object is a map from angle names to booleans, a name without entry being absent.
  The test \<open>exerciseType in reference\<close> also succeeds on a name inherited from
  \<open>Object.prototype\<close>; the value found there holds neither bucket, the loop stores
  nothing, and the result is the empty object as for an unknown exercise.
\<close>

type_synonym exercise_ref = "(string \<times> real \<times> real) list"

definition loadReferenceData :: "(string \<times> exercise_ref) list" where
  "loadReferenceData =
     [(''pushup'', [(''elbow_angle'', (90, 120))]),
      (''handstand'', [(''shoulder_hip_ankle_angle'', (170, 180)),
                       (''elbow_angle'', (160, 180))])]"

definition includes_str :: "string \<Rightarrow> string \<Rightarrow> bool" where
  "includes_str s part = sublist part s"

definition check_entry ::
  "exercise_ref \<Rightarrow> (string \<rightharpoonup> bool) \<Rightarrow> string \<times> real \<Rightarrow> (string \<rightharpoonup> bool)" where
  "check_entry exerciseRef correctness entry =
     (case entry of (angleName, angleValue) \<Rightarrow>
        if includes_str angleName ''elbow_angle'' \<and> map_of exerciseRef ''elbow_angle'' \<noteq> None
        then (case map_of exerciseRef ''elbow_angle'' of
                None \<Rightarrow> correctness
              | Some (minAngle, maxAngle) \<Rightarrow>
                  correctness(angleName \<mapsto> (angleValue \<ge> minAngle \<and> angleValue \<le> maxAngle)))
        else if includes_str angleName ''shoulder_hip_ankle''
                \<and> map_of exerciseRef ''shoulder_hip_ankle_angle'' \<noteq> None
        then (case map_of exerciseRef ''shoulder_hip_ankle_angle'' of
                None \<Rightarrow> correctness
              | Some (minAngle, maxAngle) \<Rightarrow>
                  correctness(angleName \<mapsto> (angleValue \<ge> minAngle \<and> angleValue \<le> maxAngle)))
        else correctness)"

definition checkPostureCorrectness :: "(string \<times> real) list \<Rightarrow> string \<Rightarrow> (string \<rightharpoonup> bool)" where
  "checkPostureCorrectness angles exerciseType =
     (let reference = loadReferenceData; correctness = Map.empty
      in case map_of reference exerciseType of
           None \<Rightarrow> correctness
         | Some exerciseRef \<Rightarrow> foldl (check_entry exerciseRef) correctness angles)"

definition angle_entries :: "angle_set \<Rightarrow> (string \<times> real) list" where
  "angle_entries a =
     [(''elbow_angle_left'', elbow_angle_left a),
      (''elbow_angle_right'', elbow_angle_right a),
      (''shoulder_hip_ankle_angle_left'', shoulder_hip_ankle_angle_left a),
      (''shoulder_hip_ankle_angle_right'', shoulder_hip_ankle_angle_right a)]"

section \<open>Pose coach (pose-coach.js)\<close>

subsection \<open>Feedback, history and coach state\<close>

datatype priority = Critical | Major | Minor | Success

record feedback =
  primaryFeedback :: string
  tips :: "string list"
  priority :: priority
  motivational :: string

record frame_entry =
  timestamp :: int
  feedback :: feedback
  angles :: angle_set

datatype position = Up | Down

record pushup_state =
  position :: position
  repCount :: nat
  lastRepTime :: int

text \<open>The hand-stand counter is the field \<open>repCount\<close> of \<open>exerciseState.handstand\<close>.\<close>

record handstand_state =
  isInHandstand :: bool
  entryTime :: int
  handstandRepCount :: nat

text \<open>
  The coach object. \<open>speakCallback\<close> tells whether the constructor was given a
  function; \<open>spoken\<close> is the sequence of feedback types handed to it, in order (the
  wording chosen at random among the variations of a type is not part of the model, and
  the callback is taken to return). The fields \<open>lastFeedbackTime\<close> and
  \<open>feedbackCooldown\<close> are never read and are left out.
\<close>

record coach =
  frameHistory :: "frame_entry list"
  speakCallback :: bool
  lastSpokenFeedback :: "string \<times> int"
  recentFeedbackTypes :: "string list"
  spoken :: "string list"
  pushup :: pushup_state
  handstand :: handstand_state

text \<open>
  What a call reads from outside the coach: the clock (\<open>Date.now()\<close>, one reading for
  the whole call) and the random number in \<open>[0, 1)\<close> drawn for the motivational line.
\<close>

record env =
  clock :: int
  rnd :: real

definition maxHistoryFrames :: nat where
  "maxHistoryFrames = 10"

definition consistencyThreshold :: real where
  "consistencyThreshold = 0.7"

definition speechCooldown :: int where
  "speechCooldown = 4000"

definition maxRecentFeedback :: nat where
  "maxRecentFeedback = 3"

definition initialExerciseState :: "pushup_state \<times> handstand_state" where
  "initialExerciseState =
     (\<lparr>position = Up, repCount = 0, lastRepTime = 0\<rparr>,
      \<lparr>isInHandstand = False, entryTime = 0, handstandRepCount = 0\<rparr>)"

definition newPoseCoach :: "bool \<Rightarrow> coach" where
  "newPoseCoach callback =
     \<lparr>frameHistory = [], speakCallback = callback, lastSpokenFeedback = ([], 0),
      recentFeedbackTypes = [], spoken = [],
      pushup = fst initialExerciseState, handstand = snd initialExerciseState\<rparr>"

definition reset :: "coach \<Rightarrow> coach" where
  "reset c = c\<lparr>frameHistory := [], lastSpokenFeedback := ([], 0), recentFeedbackTypes := [],
      pushup := fst initialExerciseState, handstand := snd initialExerciseState\<rparr>"

subsection \<open>speak\<close>

definition speak :: "coach \<Rightarrow> env \<Rightarrow> string \<Rightarrow> bool \<Rightarrow> coach" where
  "speak c e feedbackType urgent =
     (if \<not> speakCallback c then c
      else (let timeSinceLastSpoken = clock e - snd (lastSpokenFeedback c)
            in if \<not> urgent \<and> timeSinceLastSpoken < speechCooldown then c
               else if \<not> urgent \<and> feedbackType \<in> set (recentFeedbackTypes c) then c
               else (let recent = recentFeedbackTypes c @ [feedbackType]
                     in c\<lparr>spoken := spoken c @ [feedbackType],
                          lastSpokenFeedback := (feedbackType, clock e),
                          recentFeedbackTypes :=
                            (if length recent > maxRecentFeedback then tl recent else recent)\<rparr>)))"

subsection \<open>Messages\<close>

text \<open>
  Strings are the UTF-8 bytes of the source text. The pictographs that open the messages
  are given by their bytes.
\<close>

definition warning_sign :: string where
  "warning_sign = [CHR 0xE2, CHR 0x9A, CHR 0xA0, CHR 0xEF, CHR 0xB8, CHR 0x8F]"

definition triangular_ruler :: string where
  "triangular_ruler = [CHR 0xF0, CHR 0x9F, CHR 0x93, CHR 0x90]"

definition balance_scale :: string where
  "balance_scale = [CHR 0xE2, CHR 0x9A, CHR 0x96, CHR 0xEF, CHR 0xB8, CHR 0x8F]"

definition check_mark :: string where
  "check_mark = [CHR 0xE2, CHR 0x9C, CHR 0x85]"

definition flexed_biceps :: string where
  "flexed_biceps = [CHR 0xF0, CHR 0x9F, CHR 0x92, CHR 0xAA]"

definition straight_ruler :: string where
  "straight_ruler = [CHR 0xF0, CHR 0x9F, CHR 0x93, CHR 0x8F]"

definition glowing_star :: string where
  "glowing_star = [CHR 0xF0, CHR 0x9F, CHR 0x8C, CHR 0x9F]"

definition motivationalMessages :: "(string \<times> string list) list" where
  "motivationalMessages =
     [(''excellent'',
        [glowing_star @ '' Outstanding form! You're a natural!'',
         [CHR 0xF0, CHR 0x9F, CHR 0x92, CHR 0xAB] @ '' Perfect execution! Keep it up!'',
         [CHR 0xF0, CHR 0x9F, CHR 0x8F, CHR 0x86] @ '' Flawless technique! You're crushing it!'',
         [CHR 0xE2, CHR 0xAD, CHR 0x90] @ '' Incredible control! Well done!'']),
      (''good'',
        [flexed_biceps @ '' Great job! You're getting stronger!'',
         [CHR 0xF0, CHR 0x9F, CHR 0x94, CHR 0xA5] @ '' Nice work! Keep pushing!'',
         [CHR 0xE2, CHR 0x9C, CHR 0xA8] @ '' Solid form! You're improving!'',
         [CHR 0xF0, CHR 0x9F, CHR 0x91, CHR 0x8F] @ '' Well done! Stay consistent!'']),
      (''improving'',
        [[CHR 0xF0, CHR 0x9F, CHR 0x93, CHR 0x88] @ '' You're making progress! Keep going!'',
         [CHR 0xF0, CHR 0x9F, CHR 0x92, CHR 0xAF] @ '' Every rep counts! Stay focused!'',
         [CHR 0xF0, CHR 0x9F, CHR 0x8E, CHR 0xAF] @ '' You're on the right track!'',
         [CHR 0xE2, CHR 0x9A, CHR 0xA1] @ '' Keep practicing! You've got this!''])]"

text \<open>
  \<open>levelMessages[Math.floor(Math.random() * levelMessages.length)]\<close>. The random number
  lies in \<open>[0, 1)\<close>, so the index is in range; outside that interval the read would give
  \<open>undefined\<close>, which the model renders as the empty string.
\<close>

definition getMotivationalMessage :: "string \<Rightarrow> env \<Rightarrow> string" where
  "getMotivationalMessage level e =
     (let levelMessages = (case map_of motivationalMessages level of
                             Some ms \<Rightarrow> ms
                           | None \<Rightarrow> the (map_of motivationalMessages ''improving''));
          i = \<lfloor>rnd e * real (length levelMessages)\<rfloor>
      in if 0 \<le> i \<and> i < int (length levelMessages) then levelMessages ! nat i else [])"

subsection \<open>Geometric checks\<close>

text \<open>
  Each check runs inside \<open>try\<close> and answers its fail-open default when a read raises.
\<close>

definition checkPushupBodyAlignment :: "landmarks \<Rightarrow> bool" where
  "checkPushupBodyAlignment lms =
     try_read (getLandmarkCoordinates lms 11) True (\<lambda>shoulder.
     try_read (getLandmarkCoordinates lms 23) True (\<lambda>hip.
     try_read (getLandmarkCoordinates lms 27) True (\<lambda>ankle.
     let shoulderHipDistance = \<bar>y shoulder - y hip\<bar>;
         hipAnkleDistance = \<bar>y hip - y ankle\<bar>
     in shoulderHipDistance < 0.1 \<and> hipAnkleDistance < 0.1)))"

definition checkHeadPosition :: "landmarks \<Rightarrow> bool" where
  "checkHeadPosition lms =
     try_read (getLandmarkCoordinates lms 0) True (\<lambda>nose.
     try_read (getLandmarkCoordinates lms 11) True (\<lambda>shoulder.
     let headAlignment = \<bar>y nose - y shoulder\<bar>
     in headAlignment < 0.15))"

definition checkHandstandBalance :: "landmarks \<Rightarrow> bool" where
  "checkHandstandBalance lms =
     try_read (getLandmarkCoordinates lms 15) True (\<lambda>leftWrist.
     try_read (getLandmarkCoordinates lms 16) True (\<lambda>rightWrist.
     try_read (getLandmarkCoordinates lms 11) True (\<lambda>leftShoulder.
     try_read (getLandmarkCoordinates lms 12) True (\<lambda>rightShoulder.
     let wristCenterX = (x leftWrist + x rightWrist) / 2;
         shoulderCenterX = (x leftShoulder + x rightShoulder) / 2
     in \<bar>wristCenterX - shoulderCenterX\<bar> < 0.1))))"

definition checkShoulderPosition :: "landmarks \<Rightarrow> bool" where
  "checkShoulderPosition lms =
     try_read (getLandmarkCoordinates lms 11) True (\<lambda>leftShoulder.
     try_read (getLandmarkCoordinates lms 12) True (\<lambda>rightShoulder.
     try_read (getLandmarkCoordinates lms 15) True (\<lambda>leftWrist.
     try_read (getLandmarkCoordinates lms 16) True (\<lambda>rightWrist.
     let leftAlignment = \<bar>x leftShoulder - x leftWrist\<bar>;
         rightAlignment = \<bar>x rightShoulder - x rightWrist\<bar>
     in leftAlignment < 0.05 \<and> rightAlignment < 0.05))))"

definition checkHandstandInversion :: "landmarks \<Rightarrow> bool" where
  "checkHandstandInversion lms =
     try_read (getLandmarkCoordinates lms 11) False (\<lambda>leftShoulder.
     try_read (getLandmarkCoordinates lms 15) False (\<lambda>leftWrist.
     try_read (getLandmarkCoordinates lms 23) False (\<lambda>leftHip.
     let wristsAboveShoulders = y leftWrist < y leftShoulder;
         shouldersAboveHips = y leftShoulder < y leftHip
     in wristsAboveShoulders \<and> shouldersAboveHips)))"

subsection \<open>analyzePushup\<close>

definition blank_feedback :: feedback where
  "blank_feedback = \<lparr>primaryFeedback = [], tips = [], priority = Minor, motivational = []\<rparr>"

definition add_tip :: "string \<Rightarrow> feedback \<Rightarrow> feedback" where
  "add_tip tip fb = fb\<lparr>tips := tips fb @ [tip]\<rparr>"

text \<open>The rep counter: the first \<open>if\<close>/\<open>else if\<close> of \<open>analyzePushup\<close>.\<close>

definition pushup_rep_step :: "coach \<Rightarrow> env \<Rightarrow> real \<Rightarrow> coach" where
  "pushup_rep_step c e avgElbow =
     (let currentState = pushup c
      in if avgElbow > 160 \<and> position currentState = Down then
           (let reps = repCount currentState + 1;
                c1 = c\<lparr>pushup := currentState\<lparr>position := Up, repCount := reps,
                                                lastRepTime := clock e\<rparr>\<rparr>
            in if reps = 5 then speak c1 e ''milestone_5_reps'' True
               else if reps = 10 then speak c1 e ''milestone_10_reps'' True
               else if reps = 15 then speak c1 e ''milestone_15_reps'' True
               else if reps mod 5 = 0 \<and> reps > 15 then speak c1 e ''pushup_rep_completed'' True
               else speak c1 e ''pushup_good_form'' False)
         else if avgElbow < 90 \<and> position currentState = Up then
           speak (c\<lparr>pushup := currentState\<lparr>position := Down\<rparr>\<rparr>) e ''pushup_good_depth'' False
         else c)"

text \<open>The decision ladder: the second \<open>if\<close> chain, first match wins.\<close>

definition pushup_ladder :: "coach \<Rightarrow> env \<Rightarrow> landmarks \<Rightarrow> real \<Rightarrow> real \<Rightarrow> feedback \<times> coach" where
  "pushup_ladder c e lms leftElbow rightElbow =
     (if leftElbow < 70 \<or> rightElbow < 70 then
        (add_tip ''Extend your arms more to complete the push-up''
           (blank_feedback\<lparr>primaryFeedback := warning_sign @ '' Arms too bent - push higher!'',
                           priority := Critical\<rparr>),
         speak c e ''pushup_need_extension'' False)
      else if leftElbow > 150 \<or> rightElbow > 150 then
        (add_tip ''Bend your elbows to 90-110 degrees for proper form''
           (blank_feedback\<lparr>primaryFeedback := warning_sign @ '' Lower down more for full range'',
                           priority := Critical\<rparr>),
         speak c e ''pushup_need_depth'' False)
      else (let straight = checkPushupBodyAlignment lms
            in if \<not> straight then
                 (add_tip ''Engage your core to maintain a plank position''
                    (blank_feedback\<lparr>primaryFeedback := triangular_ruler @ '' Keep your body straight'',
                                    priority := Major\<rparr>),
                  speak c e ''pushup_body_alignment'' False)
               else if \<bar>leftElbow - rightElbow\<bar> > 15 then
                 (add_tip ''Lower both arms at the same rate''
                    (blank_feedback\<lparr>primaryFeedback := balance_scale @ '' Balance both arms equally'',
                                    priority := Major\<rparr>),
                  c)
               else
                 (add_tip ''Keep up this great technique''
                    (blank_feedback\<lparr>primaryFeedback := check_mark @ '' Excellent form!'',
                                    priority := Success,
                                    motivational := getMotivationalMessage ''good'' e\<rparr>),
                  if clock e - lastRepTime (pushup c) > 3000
                  then speak c e ''pushup_good_form'' False else c)))"

definition analyzePushup :: "coach \<Rightarrow> env \<Rightarrow> landmarks \<Rightarrow> angle_set \<Rightarrow> feedback \<times> coach" where
  "analyzePushup c e lms angs =
     (let leftElbow = elbow_angle_left angs;
          rightElbow = elbow_angle_right angs;
          avgElbow = (leftElbow + rightElbow) / 2;
          c1 = pushup_rep_step c e avgElbow;
          (fb1, c2) = pushup_ladder c1 e lms leftElbow rightElbow;
          fb2 = (if leftElbow > 0 \<and> rightElbow > 0
                    \<and> leftElbow \<ge> 90 \<and> leftElbow \<le> 120 \<and> rightElbow \<ge> 90 \<and> rightElbow \<le> 120
                 then add_tip ''Perfect elbow angle range!'' fb1 else fb1);
          neutral = checkHeadPosition lms;
          fb3 = (if \<not> neutral then add_tip ''Keep your head in neutral position'' fb2 else fb2)
      in (fb3, c2))"

subsection \<open>analyzeHandstand\<close>

definition handstand_hold_step :: "coach \<Rightarrow> env \<Rightarrow> bool \<Rightarrow> coach" where
  "handstand_hold_step c e isInverted =
     (let currentState = handstand c
      in if isInverted \<and> \<not> isInHandstand currentState then
           speak (c\<lparr>handstand := currentState\<lparr>isInHandstand := True, entryTime := clock e,
                      handstandRepCount := handstandRepCount currentState + 1\<rparr>\<rparr>)
             e ''handstand_entry'' True
         else if \<not> isInverted \<and> isInHandstand currentState then
           speak (c\<lparr>handstand := currentState\<lparr>isInHandstand := False\<rparr>\<rparr>) e ''handstand_exit'' True
         else c)"

definition handstand_ladder ::
  "coach \<Rightarrow> env \<Rightarrow> landmarks \<Rightarrow> angle_set \<Rightarrow> feedback \<times> coach" where
  "handstand_ladder c e lms angs =
     (let leftAlignment = shoulder_hip_ankle_angle_left angs;
          rightAlignment = shoulder_hip_ankle_angle_right angs;
          leftElbow = elbow_angle_left angs;
          rightElbow = elbow_angle_right angs
      in if leftElbow < 160 \<or> rightElbow < 160 then
           (add_tip ''Lock your elbows for better stability''
              (blank_feedback\<lparr>primaryFeedback := flexed_biceps @ '' Extend your arms fully'',
                              priority := Critical\<rparr>),
            speak c e ''handstand_arm_extension'' False)
         else if leftAlignment < 160 \<or> rightAlignment < 160 then
           (add_tip ''Engage your core and point your toes up''
              (blank_feedback\<lparr>primaryFeedback := straight_ruler @ '' Straighten your body line'',
                              priority := Critical\<rparr>),
            speak c e ''handstand_body_alignment'' False)
         else (let centered = checkHandstandBalance lms
               in if \<not> centered then
                    (add_tip ''Shift your body to find the balance point''
                       (blank_feedback\<lparr>primaryFeedback :=
                                         balance_scale @ '' Center your weight over hands'',
                                       priority := Major\<rparr>),
                     c)
                  else if \<bar>leftAlignment - rightAlignment\<bar> > 10 then
                    (add_tip ''Engage your core evenly on both sides''
                       (blank_feedback\<lparr>primaryFeedback :=
                                         triangular_ruler @ '' Keep both sides aligned'',
                                       priority := Major\<rparr>),
                     speak c e ''handstand_body_alignment'' False)
                  else
                    (add_tip ''Hold this position as long as you can''
                       (blank_feedback\<lparr>primaryFeedback := glowing_star @ '' Amazing handstand form!'',
                                       priority := Success,
                                       motivational := getMotivationalMessage ''excellent'' e\<rparr>),
                     if isInHandstand (handstand c) \<and> clock e - entryTime (handstand c) > 2000
                     then speak c e ''handstand_perfect_form'' False else c)))"

definition analyzeHandstand :: "coach \<Rightarrow> env \<Rightarrow> landmarks \<Rightarrow> angle_set \<Rightarrow> feedback \<times> coach" where
  "analyzeHandstand c e lms angs =
     (let leftAlignment = shoulder_hip_ankle_angle_left angs;
          rightAlignment = shoulder_hip_ankle_angle_right angs;
          isInverted = checkHandstandInversion lms;
          c1 = handstand_hold_step c e isInverted;
          (fb1, c2) = handstand_ladder c1 e lms angs;
          fb2 = (if leftAlignment > 170 \<and> rightAlignment > 170
                 then add_tip ''Perfect body alignment!'' fb1 else fb1);
          stable = checkShoulderPosition lms;
          fb3 = (if \<not> stable then add_tip ''Keep your shoulders directly over your wrists'' fb2
                 else fb2)
      in (fb3, c2))"

subsection \<open>generateFeedback\<close>

definition generateFeedback ::
  "coach \<Rightarrow> env \<Rightarrow> landmarks \<Rightarrow> angle_set \<Rightarrow> string \<Rightarrow> feedback \<times> coach" where
  "generateFeedback c e lms angs exerciseType =
     (if exerciseType = ''pushup'' then analyzePushup c e lms angs
      else if exerciseType = ''handstand'' then analyzeHandstand c e lms angs
      else (\<lparr>primaryFeedback = ''Select an exercise type'', tips = [], priority = Minor,
              motivational = []\<rparr>, c))"

subsection \<open>getConsistentFeedback\<close>

text \<open>
  \<open>feedbackCount\<close> is an object keyed by message; its entries are enumerated in the
  order the keys were first stored, which is the order of a list of pairs. (A key that
  spells an array index would be enumerated ahead of the others, and a key naming a
  property of \<open>Object.prototype\<close> would not start from zero; no message of the coach
  is such a key.) The threshold test \<open>count >= 0.7 * recentFrames.length\<close> is taken
  over the reals; for the window sizes 1 to 5 the products 0.7, 1.4, 2.1, 2.8 and 3.5
  lie strictly between integers, as their double-precision values do.
\<close>

fun count_message :: "(string \<times> nat) list \<Rightarrow> string \<Rightarrow> (string \<times> nat) list" where
  "count_message [] k = [(k, 1)]"
| "count_message ((k', n) # rest) k =
     (if k' = k then (k', n + 1) # rest else (k', n) # count_message rest k)"

definition recentFrames :: "frame_entry list \<Rightarrow> frame_entry list" where
  "recentFrames history = drop (length history - 5) history"

definition feedbackCount :: "frame_entry list \<Rightarrow> (string \<times> nat) list" where
  "feedbackCount recent =
     foldl (\<lambda>counts frame. count_message counts (primaryFeedback (feedback frame))) [] recent"

record consensus =
  mostFrequent :: string
  maxCount :: nat
  mostFrequentPriority :: priority
  mostFrequentTips :: "string list"
  mostFrequentMotivational :: string

definition consensus_step :: "frame_entry list \<Rightarrow> consensus \<Rightarrow> string \<times> nat \<Rightarrow> consensus" where
  "consensus_step recent acc entry =
     (case entry of (message, n) \<Rightarrow>
        if n > maxCount acc \<and> real n \<ge> consistencyThreshold * real (length recent) then
          (let acc1 = acc\<lparr>maxCount := n, mostFrequent := message\<rparr>
           in case find (\<lambda>f. primaryFeedback (feedback f) = message) recent of
                Some frame \<Rightarrow>
                  acc1\<lparr>mostFrequentPriority := priority (feedback frame),
                       mostFrequentTips := tips (feedback frame),
                       mostFrequentMotivational := motivational (feedback frame)\<rparr>
              | None \<Rightarrow> acc1)
        else acc)"

definition getConsistentFeedback :: "coach \<Rightarrow> feedback" where
  "getConsistentFeedback c =
     (if length (frameHistory c) = 0 then
        \<lparr>primaryFeedback = ''Get ready to start!'', tips = [], priority = Minor,
         motivational = []\<rparr>
      else (let recent = recentFrames (frameHistory c);
                acc = foldl (consensus_step recent)
                        \<lparr>mostFrequent = [], maxCount = 0, mostFrequentPriority = Minor,
                         mostFrequentTips = [], mostFrequentMotivational = []\<rparr>
                        (feedbackCount recent)
            in if mostFrequent acc = [] then
                 (let latest = feedback (last (frameHistory c))
                  in \<lparr>primaryFeedback = primaryFeedback latest, tips = tips latest,
                      priority = priority latest, motivational = motivational latest\<rparr>)
               else \<lparr>primaryFeedback = mostFrequent acc, tips = mostFrequentTips acc,
                     priority = mostFrequentPriority acc,
                     motivational = mostFrequentMotivational acc\<rparr>))"

subsection \<open>getSessionStats\<close>

record session_stats =
  totalFrames :: nat
  goodFormFrames :: nat
  goodFormPercentage :: int

definition good_form :: "frame_entry \<Rightarrow> bool" where
  "good_form frame \<longleftrightarrow>
     priority (feedback frame) = Success \<or> priority (feedback frame) = Minor"

definition getSessionStats :: "coach \<Rightarrow> session_stats" where
  "getSessionStats c =
     (if length (frameHistory c) = 0 then
        \<lparr>totalFrames = 0, goodFormFrames = 0, goodFormPercentage = 0\<rparr>
      else (let total = length (frameHistory c);
                good = length (filter good_form (frameHistory c))
            in \<lparr>totalFrames = total, goodFormFrames = good,
                goodFormPercentage = round ((real good / real total) * 100)\<rparr>))"

subsection \<open>analyzeAndCoach\<close>

text \<open>
  The returned object: the four feedback fields, and the fields \<open>currentAngles\<close> and
  \<open>sessionStats\<close>, which are \<open>None\<close> when the object does not have them.
\<close>

record coach_result = feedback +
  currentAngles :: "angle_set option"
  sessionStats :: "session_stats option"

definition no_pose_result :: coach_result where
  "no_pose_result =
     \<lparr>primaryFeedback = ''Position yourself in camera view'',
      tips = [''Make sure your full body is visible''],
      priority = Critical, motivational = [],
      currentAngles = None, sessionStats = None\<rparr>"

definition analyzeAndCoach :: "coach \<Rightarrow> env \<Rightarrow> landmarks \<Rightarrow> string \<Rightarrow> coach_result \<times> coach" where
  "analyzeAndCoach c e lms exerciseType =
     (case lms of
        None \<Rightarrow> (no_pose_result, c)
      | Some l \<Rightarrow>
          if length l = 0 then (no_pose_result, c)
          else (let angs = verifyPosture lms exerciseType;
                    (fb, c1) = generateFeedback c e lms angs exerciseType;
                    pushed = frameHistory c1
                               @ [\<lparr>timestamp = clock e, feedback = fb, angles = angs\<rparr>];
                    c2 = c1\<lparr>frameHistory :=
                              (if length pushed > maxHistoryFrames then tl pushed else pushed)\<rparr>;
                    consistentFeedback = getConsistentFeedback c2
                in (\<lparr>primaryFeedback = primaryFeedback consistentFeedback,
                     tips = tips consistentFeedback,
                     priority = priority consistentFeedback,
                     motivational = motivational consistentFeedback,
                     currentAngles = Some angs,
                     sessionStats = Some (getSessionStats c2)\<rparr>, c2)))"

text \<open>
  A session: calls of \<open>analyzeAndCoach\<close> one after the other on the same coach, each
  with its landmarks, exercise type and environment, and no \<open>reset\<close> between them.
\<close>

type_synonym call = "landmarks \<times> string \<times> env"

definition coach_call :: "coach \<Rightarrow> call \<Rightarrow> coach" where
  "coach_call c a = (case a of (lms, exerciseType, e) \<Rightarrow> snd (analyzeAndCoach c e lms exerciseType))"

definition session :: "coach \<Rightarrow> call list \<Rightarrow> coach" where
  "session c calls = foldl coach_call c calls"

section \<open>Double-precision arithmetic\<close>

text \<open>
  The range of \<open>calculateAngle\<close> depends on what the real numbers do not show:
  intermediate results that overflow, the not-a-number value, and quotients that
  rounding carries past 1. For that function the numbers are therefore modelled a second
  time, as IEEE 754 binary64 values: a finite value, one of the two infinities, or NaN.
  The two zeros are one value (no step of \<open>calculateAngle\<close> tells them apart).
\<close>

datatype jsnum = Fin real | PosInf | NegInf | NaN

text \<open>
  Rounding to nearest, ties to even. The exponent of a value is that of its binade, not
  below the smallest normal exponent \<open>-1022\<close>, so that the spacing below \<open>2 powr -1022\<close>
  is that of the subnormal values; the value is rounded to a multiple of the spacing.
  A result beyond the largest finite value becomes an infinity.
\<close>

definition binade :: "real \<Rightarrow> int" where
  "binade r = max \<lfloor>log 2 \<bar>r\<bar>\<rfloor> (- 1022)"

definition ulp :: "real \<Rightarrow> real" where
  "ulp r = 2 powr of_int (binade r - 52)"

definition round_half_even :: "real \<Rightarrow> int" where
  "round_half_even q =
     (let f = \<lfloor>q\<rfloor>; d = q - of_int f
      in if d < 1 / 2 then f else if d > 1 / 2 then f + 1 else if even f then f else f + 1)"

definition rd64 :: "real \<Rightarrow> real" where
  "rd64 r = of_int (round_half_even (r / ulp r)) * ulp r"

definition max_double :: real where
  "max_double = (2 ^ 53 - 1) * 2 ^ 971"

definition fl :: "real \<Rightarrow> jsnum" where
  "fl r = (let d = rd64 r
          in if d > max_double then PosInf else if d < - max_double then NegInf else Fin d)"

text \<open>
  The arithmetic of JavaScript on these values: the exact result, rounded; NaN when an
  operand is NaN or the operation has no value. \<open>x ** 2\<close> is the product of \<open>x\<close>
  with itself. \<open>Math.min\<close> and \<open>Math.max\<close> answer NaN as soon as an argument is NaN.
\<close>

fun js_neg :: "jsnum \<Rightarrow> jsnum" where
  "js_neg (Fin a) = Fin (- a)"
| "js_neg PosInf = NegInf"
| "js_neg NegInf = PosInf"
| "js_neg NaN = NaN"

fun js_add :: "jsnum \<Rightarrow> jsnum \<Rightarrow> jsnum" where
  "js_add (Fin a) (Fin b) = fl (a + b)"
| "js_add NaN b = NaN"
| "js_add a NaN = NaN"
| "js_add PosInf NegInf = NaN"
| "js_add NegInf PosInf = NaN"
| "js_add PosInf b = PosInf"
| "js_add NegInf b = NegInf"
| "js_add a PosInf = PosInf"
| "js_add a NegInf = NegInf"

definition js_sub :: "jsnum \<Rightarrow> jsnum \<Rightarrow> jsnum" where
  "js_sub a b = js_add a (js_neg b)"

definition signed_inf :: "bool \<Rightarrow> jsnum" where
  "signed_inf positive = (if positive then PosInf else NegInf)"

fun js_mul :: "jsnum \<Rightarrow> jsnum \<Rightarrow> jsnum" where
  "js_mul (Fin a) (Fin b) = fl (a * b)"
| "js_mul NaN b = NaN"
| "js_mul a NaN = NaN"
| "js_mul (Fin a) PosInf = (if a = 0 then NaN else signed_inf (0 < a))"
| "js_mul (Fin a) NegInf = (if a = 0 then NaN else signed_inf (a < 0))"
| "js_mul PosInf (Fin b) = (if b = 0 then NaN else signed_inf (0 < b))"
| "js_mul NegInf (Fin b) = (if b = 0 then NaN else signed_inf (b < 0))"
| "js_mul PosInf PosInf = PosInf"
| "js_mul NegInf NegInf = PosInf"
| "js_mul PosInf NegInf = NegInf"
| "js_mul NegInf PosInf = NegInf"

fun js_div :: "jsnum \<Rightarrow> jsnum \<Rightarrow> jsnum" where
  "js_div (Fin a) (Fin b) =
     (if b = 0 then (if a = 0 then NaN else signed_inf (0 < a)) else fl (a / b))"
| "js_div NaN b = NaN"
| "js_div a NaN = NaN"
| "js_div (Fin a) PosInf = Fin 0"
| "js_div (Fin a) NegInf = Fin 0"
| "js_div PosInf (Fin b) = signed_inf (0 \<le> b)"
| "js_div NegInf (Fin b) = signed_inf (b < 0)"
| "js_div PosInf PosInf = NaN"
| "js_div PosInf NegInf = NaN"
| "js_div NegInf PosInf = NaN"
| "js_div NegInf NegInf = NaN"

fun js_sqrt :: "jsnum \<Rightarrow> jsnum" where
  "js_sqrt (Fin a) = (if a < 0 then NaN else Fin (rd64 (sqrt a)))"
| "js_sqrt PosInf = PosInf"
| "js_sqrt NegInf = NaN"
| "js_sqrt NaN = NaN"

fun js_min :: "jsnum \<Rightarrow> jsnum \<Rightarrow> jsnum" where
  "js_min (Fin a) (Fin b) = Fin (min a b)"
| "js_min NaN b = NaN"
| "js_min a NaN = NaN"
| "js_min NegInf b = NegInf"
| "js_min a NegInf = NegInf"
| "js_min PosInf b = b"
| "js_min a PosInf = a"

fun js_max :: "jsnum \<Rightarrow> jsnum \<Rightarrow> jsnum" where
  "js_max (Fin a) (Fin b) = Fin (max a b)"
| "js_max NaN b = NaN"
| "js_max a NaN = NaN"
| "js_max PosInf b = PosInf"
| "js_max a PosInf = PosInf"
| "js_max NegInf b = b"
| "js_max a NegInf = a"

text \<open>
  \<open>Math.PI\<close> is the binary64 value nearest to pi. \<open>Math.acos\<close> answers NaN outside
  \<open>[-1, 1]\<close> and the rounded inverse cosine inside; its largest value, at \<open>-1\<close>, is
  \<open>Math.PI\<close>, which the model writes as a cap on the rounded value.
\<close>

definition math_pi :: real where
  "math_pi = 884279719003555 / 2 ^ 48"

fun js_acos :: "jsnum \<Rightarrow> jsnum" where
  "js_acos (Fin c) = (if - 1 \<le> c \<and> c \<le> 1 then Fin (min math_pi (rd64 (arccos c))) else NaN)"
| "js_acos PosInf = NaN"
| "js_acos NegInf = NaN"
| "js_acos NaN = NaN"

record js_point =
  num_x :: jsnum
  num_y :: jsnum

definition calculateAngle_double :: "js_point \<Rightarrow> js_point \<Rightarrow> js_point \<Rightarrow> jsnum" where
  "calculateAngle_double pointA pointB pointC =
     (let bax = js_sub (num_x pointA) (num_x pointB);
          bay = js_sub (num_y pointA) (num_y pointB);
          bcx = js_sub (num_x pointC) (num_x pointB);
          bcy = js_sub (num_y pointC) (num_y pointB);
          dotProduct = js_add (js_mul bax bcx) (js_mul bay bcy);
          magnitudeBA = js_sqrt (js_add (js_mul bax bax) (js_mul bay bay));
          magnitudeBC = js_sqrt (js_add (js_mul bcx bcx) (js_mul bcy bcy))
      in if magnitudeBA = Fin 0 \<or> magnitudeBC = Fin 0 then Fin 0
         else (let cosineAngle = js_div dotProduct (js_mul magnitudeBA magnitudeBC);
                   clamped = js_max (Fin (- 1)) (js_min (Fin 1) cosineAngle);
                   angleRadians = js_acos clamped
               in js_mul angleRadians (js_div (Fin 180) (Fin math_pi))))"

section \<open>Specification-side notions\<close>

text \<open>
  The landmark a frame holds at a position of the skeleton, with the zero coordinate
  where the frame is too short: what a read at a literal index of the source returns.
\<close>

definition landmark_at :: "point list \<Rightarrow> nat \<Rightarrow> point" where
  "landmark_at l n = (if n < length l then \<lparr>x = x (l ! n), y = y (l ! n)\<rparr> else \<lparr>x = 0, y = 0\<rparr>)"

text \<open>How often a primary message occurs among the frames of a window.\<close>

definition occurrences :: "string \<Rightarrow> frame_entry list \<Rightarrow> nat" where
  "occurrences m window = length (filter (\<lambda>f. primaryFeedback (feedback f) = m) window)"

text \<open>A message is consistent in a window when at least 70 percent of its frames carry it.\<close>

definition consistent_in :: "string \<Rightarrow> frame_entry list \<Rightarrow> bool" where
  "consistent_in m window \<longleftrightarrow> 10 * occurrences m window \<ge> 7 * length window"

text \<open>The rep counts after each frame of a push-up sequence given by its angle sets.\<close>

fun rep_counts :: "coach \<Rightarrow> (env \<times> landmarks \<times> angle_set) list \<Rightarrow> nat list" where
  "rep_counts c [] = []"
| "rep_counts c ((e, lms, angs) # frames) =
     (let c1 = snd (analyzePushup c e lms angs)
      in repCount (pushup c1) # rep_counts c1 frames)"

definition mean_elbow :: "angle_set \<Rightarrow> real" where
  "mean_elbow angs = (elbow_angle_left angs + elbow_angle_right angs) / 2"

text \<open>Every frame of the history carries a primary message that is not the empty string.\<close>

definition messages_present :: "coach \<Rightarrow> bool" where
  "messages_present c \<longleftrightarrow> (\<forall>f \<in> set (frameHistory c). primaryFeedback (feedback f) \<noteq> [])"

text \<open>
  The value of \<open>180 / Math.PI\<close>, and the magnitudes and the dot product
  \<open>calculateAngle\<close> computes, for stating its properties on binary64 values. A point
  lies within a bound when both coordinates are finite and at most the bound in absolute
  value.
\<close>

definition rad_to_deg :: real where
  "rad_to_deg = 1007958012753983 / 2 ^ 44"

definition magnitude_double :: "js_point \<Rightarrow> js_point \<Rightarrow> jsnum" where
  "magnitude_double P Q =
     js_sqrt (js_add (js_mul (js_sub (num_x P) (num_x Q)) (js_sub (num_x P) (num_x Q)))
                     (js_mul (js_sub (num_y P) (num_y Q)) (js_sub (num_y P) (num_y Q))))"

definition dot_double :: "js_point \<Rightarrow> js_point \<Rightarrow> js_point \<Rightarrow> jsnum" where
  "dot_double A B C =
     js_add (js_mul (js_sub (num_x A) (num_x B)) (js_sub (num_x C) (num_x B)))
            (js_mul (js_sub (num_y A) (num_y B)) (js_sub (num_y C) (num_y B)))"

fun finite_within :: "jsnum \<Rightarrow> real \<Rightarrow> bool" where
  "finite_within (Fin u) bound \<longleftrightarrow> \<bar>u\<bar> \<le> bound"
| "finite_within PosInf bound \<longleftrightarrow> False"
| "finite_within NegInf bound \<longleftrightarrow> False"
| "finite_within NaN bound \<longleftrightarrow> False"

definition coords_within :: "js_point \<Rightarrow> real \<Rightarrow> bool" where
  "coords_within P bound \<longleftrightarrow> finite_within (num_x P) bound \<and> finite_within (num_y P) bound"

section \<open>Geometry\<close>

subsection \<open>Rounding to binary64\<close>

lemma round_half_even_int [simp]: "round_half_even (of_int n) = n"
  by (simp add: round_half_even_def)

lemma round_half_even_zero [simp]: "round_half_even 0 = 0"
  using round_half_even_int [of 0] by simp

lemma round_half_even_bounds:
  "\<lfloor>q\<rfloor> \<le> round_half_even q" "round_half_even q \<le> \<lfloor>q\<rfloor> + 1"
  by (simp_all add: round_half_even_def Let_def)

lemma round_half_even_mono:
  assumes "a \<le> b"
  shows "round_half_even a \<le> round_half_even b"
proof (cases "\<lfloor>a\<rfloor> = \<lfloor>b\<rfloor>")
  case True
  with assms show ?thesis
    by (auto simp add: round_half_even_def Let_def)
next
  case False
  with assms have "\<lfloor>a\<rfloor> + 1 \<le> \<lfloor>b\<rfloor>"
    using floor_mono [of a b] by linarith
  with round_half_even_bounds(2) [of a] round_half_even_bounds(1) [of b]
  show ?thesis by linarith
qed

lemma round_half_even_minus: "round_half_even (- q) = - round_half_even q"
proof (cases "q = of_int \<lfloor>q\<rfloor>")
  case True
  then obtain n where "q = of_int n" ..
  then have "- q = of_int (- n)" by simp
  then show ?thesis using \<open>q = of_int n\<close> by (simp only: round_half_even_int)
next
  case False
  then have lt: "of_int \<lfloor>q\<rfloor> < q" using of_int_floor_le [of q] by linarith
  have "\<lfloor>- q\<rfloor> = - \<lfloor>q\<rfloor> - 1"
    using lt by (intro floor_unique) (simp_all, linarith)
  then show ?thesis
    using lt by (auto simp add: round_half_even_def Let_def)
qed

lemma ulp_pos [simp]: "0 < ulp r"
  by (simp add: ulp_def)

lemma ulp_nonneg [simp]: "0 \<le> ulp r"
  by (simp add: ulp_def)

lemma rd64_zero [simp]: "rd64 0 = 0"
  by (simp add: rd64_def)

lemma binade_minus [simp]: "binade (- r) = binade r"
  by (simp add: binade_def)

lemma ulp_minus [simp]: "ulp (- r) = ulp r"
  by (simp add: ulp_def)

lemma rd64_minus: "rd64 (- r) = - rd64 r"
  by (simp add: rd64_def round_half_even_minus)

lemma rd64_nonneg:
  assumes "0 \<le> r"
  shows "0 \<le> rd64 r"
proof -
  have "0 \<le> r / ulp r" using assms by simp
  then have "round_half_even 0 \<le> round_half_even (r / ulp r)"
    by (rule round_half_even_mono)
  then have "0 \<le> round_half_even (r / ulp r)"
    by simp
  then show ?thesis by (simp add: rd64_def)
qed

lemma pow2_shift: "2 ^ n * 2 powr (t - real n) = (2 powr t :: real)"
proof -
  have "2 powr t = 2 powr (real n) * (2 powr (t - real n) :: real)"
    by (simp add: powr_add [symmetric])
  also have "2 powr (real n) = (2 ^ n :: real)"
    by (simp add: powr_realpow)
  finally show ?thesis by simp
qed

lemma binade_mono:
  assumes "0 < a" and "a \<le> b"
  shows "binade a \<le> binade b"
proof -
  have "log 2 a \<le> log 2 b" using assms by simp
  then have "\<lfloor>log 2 a\<rfloor> \<le> \<lfloor>log 2 b\<rfloor>" by (rule floor_mono)
  with assms show ?thesis by (simp add: binade_def)
qed

lemma below_next_binade:
  assumes "0 < a"
  shows "a < 2 powr of_int (binade a + 1)"
proof -
  have "\<lfloor>log 2 a\<rfloor> \<le> binade a" using assms by (simp add: binade_def)
  then have "\<lfloor>log 2 a\<rfloor> < binade a + 1" by linarith
  then have "log 2 a < of_int (binade a + 1)"
    by (simp only: floor_less_iff)
  then show ?thesis using assms by (simp add: log_less_iff)
qed

lemma above_binade:
  assumes "0 < b" and "- 1022 < binade b"
  shows "2 powr of_int (binade b) \<le> b"
proof -
  from assms(2) have "binade b = \<lfloor>log 2 b\<rfloor>"
    using assms(1) by (simp add: binade_def max_def split: if_splits)
  then have "of_int (binade b) \<le> log 2 b" by simp
  then show ?thesis using assms(1) by (simp add: le_log_iff)
qed

lemma ulp_next_binade: "2 ^ 53 * ulp a = 2 powr of_int (binade a + 1)"
  using pow2_shift [of 53 "of_int (binade a + 1)"] by (simp add: ulp_def)

lemma ulp_binade: "2 ^ 52 * ulp b = 2 powr of_int (binade b)"
  using pow2_shift [of 52 "of_int (binade b)"] by (simp add: ulp_def)

lemma rd64_le_next_binade:
  assumes "0 < a"
  shows "rd64 a \<le> 2 powr of_int (binade a + 1)"
proof -
  have "a < 2 ^ 53 * ulp a"
    using below_next_binade [OF assms] by (simp only: ulp_next_binade)
  then have "a / ulp a \<le> of_int (2 ^ 53)"
    by (simp add: pos_divide_le_eq)
  then have "round_half_even (a / ulp a) \<le> round_half_even (of_int (2 ^ 53))"
    by (rule round_half_even_mono)
  then have "round_half_even (a / ulp a) \<le> 2 ^ 53"
    by (simp only: round_half_even_int)
  then have "(of_int (round_half_even (a / ulp a)) :: real) \<le> of_int (2 ^ 53)"
    by (simp only: of_int_le_iff)
  then have "rd64 a \<le> 2 ^ 53 * ulp a"
    by (simp add: rd64_def mult_right_mono)
  then show ?thesis by (simp only: ulp_next_binade)
qed

lemma rd64_ge_binade:
  assumes "0 < b" and "- 1022 < binade b"
  shows "2 powr of_int (binade b) \<le> rd64 b"
proof -
  have "2 ^ 52 * ulp b \<le> b"
    using above_binade [OF assms] by (simp only: ulp_binade)
  then have "of_int (2 ^ 52) \<le> b / ulp b"
    by (simp add: pos_le_divide_eq)
  then have "round_half_even (of_int (2 ^ 52)) \<le> round_half_even (b / ulp b)"
    by (rule round_half_even_mono)
  then have "2 ^ 52 \<le> round_half_even (b / ulp b)"
    by (simp only: round_half_even_int)
  then have "(of_int (2 ^ 52) :: real) \<le> of_int (round_half_even (b / ulp b))"
    by (simp only: of_int_le_iff)
  then have "2 ^ 52 * ulp b \<le> rd64 b"
    by (simp add: rd64_def mult_right_mono)
  then show ?thesis by (simp only: ulp_binade)
qed

lemma rd64_mono_pos:
  assumes "0 < a" and "a \<le> b"
  shows "rd64 a \<le> rd64 b"
proof (cases "binade a = binade b")
  case True
  then have u: "ulp a = ulp b" by (simp add: ulp_def)
  have "a / ulp b \<le> b / ulp b" using assms(2) by (simp add: divide_right_mono)
  then have "round_half_even (a / ulp b) \<le> round_half_even (b / ulp b)"
    by (rule round_half_even_mono)
  then show ?thesis by (simp add: rd64_def u mult_right_mono)
next
  case False
  with binade_mono [OF assms] have lt: "binade a < binade b" by simp
  moreover have "- 1022 \<le> binade a" by (simp add: binade_def)
  ultimately have big: "- 1022 < binade b" by simp
  from assms have b: "0 < b" by simp
  have "rd64 a \<le> 2 powr of_int (binade a + 1)"
    using assms(1) by (rule rd64_le_next_binade)
  also have "\<dots> \<le> 2 powr of_int (binade b)"
    using lt by simp
  also have "\<dots> \<le> rd64 b"
    using b big by (rule rd64_ge_binade)
  finally show ?thesis .
qed

lemma rd64_mono:
  assumes "a \<le> b"
  shows "rd64 a \<le> rd64 b"
proof -
  consider "0 < a" | "a \<le> 0" "0 \<le> b" | "b < 0" by linarith
  then show ?thesis
  proof cases
    case 1
    then show ?thesis using assms by (rule rd64_mono_pos)
  next
    case 2
    then have "rd64 a \<le> 0" using rd64_nonneg [of "- a"] by (simp add: rd64_minus)
    moreover have "0 \<le> rd64 b" using 2 by (simp add: rd64_nonneg)
    ultimately show ?thesis by simp
  next
    case 3
    then have "rd64 (- b) \<le> rd64 (- a)" using assms by (intro rd64_mono_pos) simp_all
    then show ?thesis by (simp add: rd64_minus)
  qed
qed

lemma rd64_representable:
  assumes n: "\<bar>n\<bar> < 2 ^ 53" and e: "- 1074 \<le> e"
  shows "rd64 (of_int n * 2 powr of_int e) = of_int n * 2 powr of_int e"
proof (cases "n = 0")
  case True
  then show ?thesis by simp
next
  case False
  define r :: real where "r = of_int n * 2 powr of_int e"
  have pos: "0 < \<bar>r\<bar>" using False by (simp add: r_def)
  have "\<bar>r\<bar> = of_int \<bar>n\<bar> * 2 powr of_int e"
    by (simp add: r_def abs_mult)
  also have "\<dots> < of_int (2 ^ 53) * 2 powr of_int e"
    using n by (intro mult_strict_right_mono) (simp_all only: of_int_less_iff powr_gt_zero)
  also have "\<dots> = 2 powr of_int (e + 53)"
    using pow2_shift [of 53 "of_int (e + 53)"] by simp
  finally have "log 2 \<bar>r\<bar> < of_int (e + 53)"
    using pos by (simp add: log_less_iff)
  then have "\<lfloor>log 2 \<bar>r\<bar>\<rfloor> < e + 53"
    by (simp only: floor_less_iff)
  with e have b: "binade r - 52 \<le> e"
    by (simp add: binade_def)
  define k where "k = nat (e - (binade r - 52))"
  from b have k: "e = (binade r - 52) + int k" by (simp add: k_def)
  have "2 powr of_int e = 2 powr (of_int (binade r - 52) + real k)"
    by (subst k) simp
  also have "\<dots> = ulp r * 2 ^ k"
    by (simp add: powr_add ulp_def powr_realpow)
  finally have p: "2 powr of_int e = ulp r * 2 ^ k" .
  have rr: "r = of_int n * 2 powr of_int e" by (fact r_def)
  have "r = of_int n * (ulp r * 2 ^ k)"
    by (subst p [symmetric]) (rule rr)
  then have "r / ulp r = of_int n * (ulp r * 2 ^ k) / ulp r"
    by (rule arg_cong [where f = "\<lambda>t. t / ulp r"])
  also have "\<dots> = of_int (n * 2 ^ k)"
  proof -
    have "ulp r \<noteq> 0" by (simp add: ulp_def)
    then show ?thesis by simp
  qed
  finally have "r / ulp r = of_int (n * 2 ^ k)" .
  then have "round_half_even (r / ulp r) = n * 2 ^ k"
    by (simp only: round_half_even_int)
  then have "rd64 r = of_int (n * 2 ^ k) * ulp r"
    by (simp add: rd64_def)
  also have "\<dots> = of_int n * (ulp r * 2 ^ k)"
    by simp
  also have "ulp r * 2 ^ k = 2 powr of_int e"
    using p by simp
  finally show ?thesis by (simp only: rr [symmetric])
qed

lemma rd64_pow2:
  assumes "- 1074 \<le> k"
  shows "rd64 (2 powr of_int k) = 2 powr of_int k"
  using rd64_representable [of 1 k] assms by simp

lemma rd64_abs_le:
  assumes "- 1074 \<le> k" and "\<bar>r\<bar> \<le> 2 powr of_int k"
  shows "\<bar>rd64 r\<bar> \<le> 2 powr of_int k"
proof -
  from assms(2) have "r \<le> 2 powr of_int k" and "- (2 powr of_int k) \<le> r"
    by simp_all
  then have "rd64 r \<le> rd64 (2 powr of_int k)" and "rd64 (- (2 powr of_int k)) \<le> rd64 r"
    by (simp_all add: rd64_mono)
  then show ?thesis
    by (simp add: rd64_minus rd64_pow2 [OF assms(1)] abs_le_iff)
qed

lemma ulp_ge: "2 powr (- 1074) \<le> ulp r"
proof -
  have "- 1022 \<le> binade r" by (simp add: binade_def)
  then have "(- 1074 :: real) \<le> of_int (binade r - 52)" by simp
  then show ?thesis unfolding ulp_def by (simp only: powr_le_cancel_iff)
qed

lemma rd64_pos_ge:
  assumes "0 < rd64 r"
  shows "2 powr (- 1074) \<le> rd64 r"
proof -
  from assms have "0 < round_half_even (r / ulp r)"
    using ulp_pos [of r] by (simp add: rd64_def zero_less_mult_iff not_less [symmetric] less_imp_le)
  then have "(1 :: real) \<le> of_int (round_half_even (r / ulp r))"
    by simp
  then have "1 * ulp r \<le> rd64 r"
    unfolding rd64_def by (intro mult_right_mono) simp_all
  with ulp_ge [of r] show ?thesis by simp
qed

lemma rd64_exact_int:
  assumes "\<bar>n\<bar> < 2 ^ 53"
  shows "rd64 (of_int n) = of_int n"
  using rd64_representable [of n 0] assms by simp

subsection \<open>calculateAngle on binary64 values\<close>

lemma max_double_ge: "2 ^ 1023 \<le> max_double"
  by (simp add: max_double_def)

lemma rd64_abs_le_pow:
  assumes "\<bar>r\<bar> \<le> 2 ^ n"
  shows "\<bar>rd64 r\<bar> \<le> 2 ^ n"
  using rd64_abs_le [of "int n" r] assms by (simp add: powr_realpow)

lemma fl_Fin: "\<bar>rd64 r\<bar> \<le> max_double \<Longrightarrow> fl r = Fin (rd64 r)"
  by (auto simp add: fl_def Let_def)

lemma fl_bounded:
  assumes "\<bar>r\<bar> \<le> 2 ^ n" and "n \<le> 1023"
  shows "fl r = Fin (rd64 r)" and "\<bar>rd64 r\<bar> \<le> 2 ^ n"
proof -
  show b: "\<bar>rd64 r\<bar> \<le> 2 ^ n" using assms(1) by (rule rd64_abs_le_pow)
  have "(2 :: real) ^ n \<le> 2 ^ 1023" using assms(2) by (intro power_increasing) simp_all
  with b max_double_ge have "\<bar>rd64 r\<bar> \<le> max_double" by linarith
  then show "fl r = Fin (rd64 r)" by (rule fl_Fin)
qed

lemma fl_not_NaN [simp]: "fl r \<noteq> NaN"
  by (simp add: fl_def Let_def)

lemma binade_eq:
  assumes "2 powr of_int k \<le> \<bar>r\<bar>" and "\<bar>r\<bar> < 2 powr of_int (k + 1)" and "- 1022 \<le> k"
  shows "binade r = k"
proof -
  have pos: "0 < \<bar>r\<bar>" using assms(1) powr_gt_zero [of 2 "of_int k"] by linarith
  have "\<lfloor>log 2 \<bar>r\<bar>\<rfloor> = k"
    using assms(1,2) pos by (simp add: floor_log_eq_powr_iff)
  with assms(3) show ?thesis by (simp add: binade_def)
qed

lemma round_half_even_near:
  assumes "of_int n - 1 / 2 < q" and "q < of_int n + 1 / 2"
  shows "round_half_even q = n"
proof (cases "of_int n \<le> q")
  case True
  with assms(2) have "\<lfloor>q\<rfloor> = n" by (intro floor_unique) simp_all
  with assms(2) show ?thesis by (simp add: round_half_even_def Let_def)
next
  case False
  with assms(1) have "\<lfloor>q\<rfloor> = n - 1" by (intro floor_unique) simp_all
  with assms(1) show ?thesis by (simp add: round_half_even_def Let_def)
qed

lemma rd64_rad_to_deg: "rd64 (180 / math_pi) = rad_to_deg"
proof -
  define q :: real where "q = 180 / math_pi"
  have lo: "32 \<le> q" and hi: "q < 64"
    by (simp_all add: q_def math_pi_def)
  have "binade q = 5"
    using lo hi by (intro binade_eq) simp_all
  then have u: "ulp q = 1 / 2 ^ 47"
    by (simp add: ulp_def powr_minus_divide)
  have "round_half_even (q / ulp q) = 8063664102031864"
    unfolding u by (rule round_half_even_near) (simp_all add: q_def math_pi_def)
  then show ?thesis
    by (simp add: rd64_def u q_def [symmetric] rad_to_deg_def)
qed

lemma rad_to_deg_value: "js_div (Fin 180) (Fin math_pi) = Fin rad_to_deg"
proof -
  have "\<bar>rd64 (180 / math_pi)\<bar> \<le> max_double"
    by (simp add: rd64_rad_to_deg rad_to_deg_def max_double_def)
  then have "fl (180 / math_pi) = Fin rad_to_deg"
    using fl_Fin [of "180 / math_pi"] by (simp add: rd64_rad_to_deg)
  then show ?thesis by (simp add: math_pi_def)
qed

lemma to_degrees:
  assumes "0 \<le> a" and "a \<le> math_pi"
  shows "\<exists>d. js_mul (Fin a) (js_div (Fin 180) (Fin math_pi)) = Fin d \<and> 0 \<le> d \<and> d \<le> 180"
proof -
  have "a * rad_to_deg \<le> math_pi * rad_to_deg"
    using assms(2) by (intro mult_right_mono) (simp_all add: rad_to_deg_def)
  also have "\<dots> \<le> 180" by (simp add: math_pi_def rad_to_deg_def)
  finally have up: "a * rad_to_deg \<le> 180" .
  have lo: "0 \<le> a * rad_to_deg" using assms(1) by (simp add: rad_to_deg_def)
  have "rd64 (a * rad_to_deg) \<le> rd64 180" using up by (rule rd64_mono)
  moreover have "rd64 180 = 180" using rd64_exact_int [of 180] by simp
  ultimately have d_up: "rd64 (a * rad_to_deg) \<le> 180" by simp
  have d_lo: "0 \<le> rd64 (a * rad_to_deg)" using lo by (rule rd64_nonneg)
  have "(180 :: real) \<le> max_double" by (simp add: max_double_def)
  with d_up d_lo have "\<bar>rd64 (a * rad_to_deg)\<bar> \<le> max_double" by simp
  then have "fl (a * rad_to_deg) = Fin (rd64 (a * rad_to_deg))" by (rule fl_Fin)
  then have "js_mul (Fin a) (js_div (Fin 180) (Fin math_pi)) = Fin (rd64 (a * rad_to_deg))"
    by (simp only: rad_to_deg_value js_mul.simps)
  with d_up d_lo show ?thesis by blast
qed

lemma acos_range:
  assumes "- 1 \<le> c" and "c \<le> 1"
  shows "\<exists>a. js_acos (Fin c) = Fin a \<and> 0 \<le> a \<and> a \<le> math_pi"
proof -
  have "0 \<le> arccos c" using assms by (simp add: arccos_lbound)
  then have "0 \<le> rd64 (arccos c)" by (rule rd64_nonneg)
  moreover have "0 \<le> math_pi" by (simp add: math_pi_def)
  ultimately show ?thesis using assms by simp
qed

lemma clamp_cases:
  "js_max (Fin (- 1)) (js_min (Fin 1) c) = NaN \<and> c = NaN
   \<or> (\<exists>q. js_max (Fin (- 1)) (js_min (Fin 1) c) = Fin q \<and> - 1 \<le> q \<and> q \<le> 1)"
  by (cases c) simp_all

lemma degrees_of_cosine:
  "js_mul (js_acos (js_max (Fin (- 1)) (js_min (Fin 1) c))) (js_div (Fin 180) (Fin math_pi)) = NaN
     \<and> c = NaN
   \<or> (\<exists>d. js_mul (js_acos (js_max (Fin (- 1)) (js_min (Fin 1) c)))
              (js_div (Fin 180) (Fin math_pi)) = Fin d \<and> 0 \<le> d \<and> d \<le> 180)"
proof -
  from clamp_cases [of c] show ?thesis
  proof
    assume "js_max (Fin (- 1)) (js_min (Fin 1) c) = NaN \<and> c = NaN"
    then show ?thesis by (simp add: rad_to_deg_value)
  next
    assume "\<exists>q. js_max (Fin (- 1)) (js_min (Fin 1) c) = Fin q \<and> - 1 \<le> q \<and> q \<le> 1"
    then obtain q where q: "js_max (Fin (- 1)) (js_min (Fin 1) c) = Fin q" "- 1 \<le> q" "q \<le> 1"
      by blast
    from acos_range [OF q(2,3)] obtain a where a: "js_acos (Fin q) = Fin a" "0 \<le> a" "a \<le> math_pi"
      by blast
    from to_degrees [OF a(2,3)] q(1) a(1) show ?thesis by simp
  qed
qed

lemma calculateAngle_double_range:
  "calculateAngle_double A B C = NaN
   \<or> (\<exists>d. calculateAngle_double A B C = Fin d \<and> 0 \<le> d \<and> d \<le> 180)"
proof -
  define bax where "bax = js_sub (num_x A) (num_x B)"
  define bay where "bay = js_sub (num_y A) (num_y B)"
  define bcx where "bcx = js_sub (num_x C) (num_x B)"
  define bcy where "bcy = js_sub (num_y C) (num_y B)"
  define mba where "mba = js_sqrt (js_add (js_mul bax bax) (js_mul bay bay))"
  define mbc where "mbc = js_sqrt (js_add (js_mul bcx bcx) (js_mul bcy bcy))"
  define c where "c = js_div (js_add (js_mul bax bcx) (js_mul bay bcy)) (js_mul mba mbc)"
  have eq: "calculateAngle_double A B C =
      (if mba = Fin 0 \<or> mbc = Fin 0 then Fin 0
       else js_mul (js_acos (js_max (Fin (- 1)) (js_min (Fin 1) c)))
              (js_div (Fin 180) (Fin math_pi)))"
    by (simp add: calculateAngle_double_def Let_def bax_def bay_def bcx_def bcy_def mba_def
        mbc_def c_def)
  show ?thesis
  proof (cases "mba = Fin 0 \<or> mbc = Fin 0")
    case True
    then show ?thesis by (simp add: eq)
  next
    case False
    with degrees_of_cosine [of c] show ?thesis by (auto simp add: eq)
  qed
qed

lemma overflow_square: "js_mul (Fin (2 ^ 600)) (Fin (2 ^ 600)) = PosInf"
proof -
  have "(2 ^ 600 :: real) * 2 ^ 600 = 2 powr of_int 1200"
    using powr_realpow [of 2 1200] by (simp add: power_add [symmetric])
  moreover have "rd64 (2 powr of_int 1200) = 2 powr of_int 1200"
    by (rule rd64_pow2) simp
  moreover have "max_double < 2 powr of_int 1200"
    using powr_realpow [of 2 1200] by (simp add: max_double_def)
  ultimately show ?thesis by (simp add: fl_def Let_def)
qed

lemma overflow_gives_NaN:
  assumes "js_sub (Fin t) (Fin 0) = Fin t" and "js_mul (Fin t) (Fin t) = PosInf"
  shows "calculateAngle_double \<lparr>num_x = Fin t, num_y = Fin 0\<rparr> \<lparr>num_x = Fin 0, num_y = Fin 0\<rparr>
     \<lparr>num_x = Fin t, num_y = Fin 0\<rparr> = NaN"
proof -
  have zero: "js_sub (Fin 0) (Fin 0) = Fin 0" "js_mul (Fin 0) (Fin 0) = Fin 0"
    by (simp_all add: js_sub_def fl_def max_double_def)
  show ?thesis
    by (simp add: calculateAngle_double_def Let_def assms zero
        del: js_mul.simps(1) js_add.simps(1) js_div.simps(1))
qed

lemma big_minus_zero: "js_sub (Fin (2 ^ 600)) (Fin 0) = Fin (2 ^ 600)"
proof -
  have "rd64 (2 powr of_int 600) = 2 powr of_int 600" by (rule rd64_pow2) simp
  then have r: "rd64 (2 ^ 600) = 2 ^ 600" using powr_realpow [of 2 600] by simp
  have "\<bar>rd64 (2 ^ 600)\<bar> \<le> max_double" unfolding r by (simp add: max_double_def)
  then have "fl (2 ^ 600) = Fin (2 ^ 600)" using fl_Fin [of "2 ^ 600"] r by simp
  then show ?thesis by (simp add: js_sub_def)
qed

lemmas fin_arith_del = js_mul.simps(1) js_add.simps(1) js_div.simps(1)

lemma zero_steps:
  "js_sub (Fin a) (Fin a) = Fin 0" "js_mul (Fin 0) (Fin 0) = Fin 0"
  "js_add (Fin 0) (Fin 0) = Fin 0" "js_sqrt (Fin 0) = Fin 0"
  by (simp_all add: js_sub_def fl_def max_double_def)

lemma coincident_magnitude:
  "js_sqrt (js_add (js_mul (js_sub (Fin a) (Fin a)) (js_sub (Fin a) (Fin a)))
                   (js_mul (js_sub (Fin b) (Fin b)) (js_sub (Fin b) (Fin b)))) = Fin 0"
  by (simp only: zero_steps)

lemma calculateAngle_double_coincident:
  assumes "num_x B = Fin u" and "num_y B = Fin v"
  shows "calculateAngle_double B B C = Fin 0" and "calculateAngle_double A B B = Fin 0"
  using coincident_magnitude [of u v]
  by (simp_all add: calculateAngle_double_def Let_def assms del: fin_arith_del)

lemma sub_bounded:
  assumes "\<bar>a\<bar> \<le> 2 ^ 500" and "\<bar>b\<bar> \<le> 2 ^ 500"
  shows "\<exists>v. js_sub (Fin a) (Fin b) = Fin v \<and> \<bar>v\<bar> \<le> 2 ^ 501"
proof -
  have "\<bar>a + - b\<bar> \<le> 2 ^ 501" using assms by simp
  from fl_bounded [OF this] show ?thesis by (simp add: js_sub_def)
qed

lemma mul_bounded:
  assumes "\<bar>u\<bar> \<le> 2 ^ 501" and "\<bar>v\<bar> \<le> 2 ^ 501"
  shows "\<exists>w. js_mul (Fin u) (Fin v) = Fin w \<and> \<bar>w\<bar> \<le> 2 ^ 1002 \<and> (0 \<le> u * v \<longrightarrow> 0 \<le> w)"
proof -
  have "\<bar>u\<bar> * \<bar>v\<bar> \<le> 2 ^ 501 * 2 ^ 501"
    using assms by (intro mult_mono) simp_all
  then have "\<bar>u * v\<bar> \<le> 2 ^ 1002" by (simp add: abs_mult power_add [symmetric])
  from fl_bounded [OF this] rd64_nonneg [of "u * v"] show ?thesis by simp
qed

lemma add_bounded:
  assumes "\<bar>p\<bar> \<le> 2 ^ 1002" and "\<bar>q\<bar> \<le> 2 ^ 1002"
  shows "\<exists>s. js_add (Fin p) (Fin q) = Fin s \<and> \<bar>s\<bar> \<le> 2 ^ 1003
           \<and> (0 \<le> p + q \<longrightarrow> 0 \<le> s \<and> (s = 0 \<or> 2 powr (- 1074) \<le> s))"
proof -
  have "\<bar>p + q\<bar> \<le> 2 ^ 1003" using assms by simp
  from fl_bounded [OF this] have f: "fl (p + q) = Fin (rd64 (p + q))" "\<bar>rd64 (p + q)\<bar> \<le> 2 ^ 1003"
    by simp_all
  have "0 \<le> rd64 (p + q) \<and> (rd64 (p + q) = 0 \<or> 2 powr (- 1074) \<le> rd64 (p + q))"
    if "0 \<le> p + q"
    using rd64_nonneg [OF that] rd64_pos_ge [of "p + q"] by fastforce
  with f show ?thesis by simp
qed

lemma sqrt_bounded:
  assumes "0 \<le> s" and "s \<le> 2 ^ 1003" and "s = 0 \<or> 2 powr (- 1074) \<le> s"
  shows "\<exists>m. js_sqrt (Fin s) = Fin m \<and> 0 \<le> m \<and> m \<le> 2 ^ 502 \<and> (m \<noteq> 0 \<longrightarrow> 2 powr (- 537) \<le> m)"
proof -
  have "sqrt s \<le> sqrt ((2 ^ 502)\<^sup>2)"
    using assms(2) by (intro real_sqrt_le_mono) simp
  then have "\<bar>sqrt s\<bar> \<le> 2 ^ 502" using assms(1) by simp
  then have up: "\<bar>rd64 (sqrt s)\<bar> \<le> 2 ^ 502" by (rule rd64_abs_le_pow)
  have lo: "0 \<le> rd64 (sqrt s)" using assms(1) by (intro rd64_nonneg) simp
  have small: "2 powr (- 537) \<le> rd64 (sqrt s)" if "rd64 (sqrt s) \<noteq> 0"
  proof -
    from that have "s \<noteq> 0" by auto
    with assms(3) have "2 powr (- 1074) \<le> s" by simp
    then have "sqrt (2 powr (- 1074)) \<le> sqrt s" by (rule real_sqrt_le_mono)
    moreover have "sqrt (2 powr (- 1074)) = 2 powr (- 537)"
      using powr_half_sqrt_powr [of 2 "- 1074"] by simp
    ultimately have "rd64 (2 powr (- 537)) \<le> rd64 (sqrt s)"
      by (intro rd64_mono) simp
    moreover have "rd64 (2 powr of_int (- 537)) = 2 powr of_int (- 537)"
      by (rule rd64_pow2) simp
    ultimately show ?thesis by simp
  qed
  from up lo small assms(1) show ?thesis by simp
qed

lemma magnitude_bounded:
  assumes "\<bar>u\<bar> \<le> 2 ^ 501" and "\<bar>v\<bar> \<le> 2 ^ 501"
  shows "\<exists>m. js_sqrt (js_add (js_mul (Fin u) (Fin u)) (js_mul (Fin v) (Fin v))) = Fin m
           \<and> 0 \<le> m \<and> m \<le> 2 ^ 502 \<and> (m \<noteq> 0 \<longrightarrow> 2 powr (- 537) \<le> m)"
proof -
  from mul_bounded [OF assms(1) assms(1)] obtain p
    where p: "js_mul (Fin u) (Fin u) = Fin p" "\<bar>p\<bar> \<le> 2 ^ 1002" "0 \<le> p" by auto
  from mul_bounded [OF assms(2) assms(2)] obtain q
    where q: "js_mul (Fin v) (Fin v) = Fin q" "\<bar>q\<bar> \<le> 2 ^ 1002" "0 \<le> q" by auto
  from add_bounded [OF p(2) q(2)] p(3) q(3) obtain s
    where s: "js_add (Fin p) (Fin q) = Fin s" "\<bar>s\<bar> \<le> 2 ^ 1003" "0 \<le> s"
      "s = 0 \<or> 2 powr (- 1074) \<le> s" by auto
  from s(2,3) have "s \<le> 2 ^ 1003" by simp
  from sqrt_bounded [OF s(3) this s(4)] show ?thesis
    by (simp only: p(1) q(1) s(1))
qed

lemma magnitudes_product:
  assumes "2 powr (- 537) \<le> m" and "m \<le> 2 ^ 502" and "2 powr (- 537) \<le> n" and "n \<le> 2 ^ 502"
  shows "\<exists>p. js_mul (Fin m) (Fin n) = Fin p \<and> p \<noteq> 0"
proof -
  have pos: "0 < m" "0 < n"
    using assms(1,3) powr_gt_zero [of 2 "- 537"] by linarith+
  have "m * n \<le> 2 ^ 502 * 2 ^ 502"
    using assms(2,4) pos by (intro mult_mono) simp_all
  then have "\<bar>m * n\<bar> \<le> 2 ^ 1004" using pos by (simp add: abs_mult power_add [symmetric])
  from fl_bounded [OF this] have f: "fl (m * n) = Fin (rd64 (m * n))" by simp
  have "2 powr (- 537) * 2 powr (- 537) \<le> m * n"
    using assms(1,3) pos by (intro mult_mono) simp_all
  then have "2 powr of_int (- 1074) \<le> m * n" by (simp add: powr_add [symmetric])
  then have "rd64 (2 powr of_int (- 1074)) \<le> rd64 (m * n)" by (rule rd64_mono)
  moreover have "rd64 (2 powr of_int (- 1074)) = 2 powr of_int (- 1074)"
    by (rule rd64_pow2) simp
  ultimately have "0 < rd64 (m * n)"
    using powr_gt_zero [of 2 "of_int (- 1074)"] by linarith
  with f show ?thesis by simp
qed

lemma dot_bounded:
  assumes "\<bar>u\<bar> \<le> 2 ^ 501" and "\<bar>v\<bar> \<le> 2 ^ 501" and "\<bar>u'\<bar> \<le> 2 ^ 501" and "\<bar>v'\<bar> \<le> 2 ^ 501"
  shows "\<exists>d. js_add (js_mul (Fin u) (Fin u')) (js_mul (Fin v) (Fin v')) = Fin d"
proof -
  from mul_bounded [OF assms(1) assms(3)] obtain p
    where p: "js_mul (Fin u) (Fin u') = Fin p" "\<bar>p\<bar> \<le> 2 ^ 1002" by auto
  from mul_bounded [OF assms(2) assms(4)] obtain q
    where q: "js_mul (Fin v) (Fin v') = Fin q" "\<bar>q\<bar> \<le> 2 ^ 1002" by auto
  from add_bounded [OF p(2) q(2)] show ?thesis
    by (auto simp only: p(1) q(1))
qed

lemma calculateAngle_double_bounded:
  assumes A: "num_x A = Fin ax" "num_y A = Fin ay" "\<bar>ax\<bar> \<le> 2 ^ 500" "\<bar>ay\<bar> \<le> 2 ^ 500"
    and B: "num_x B = Fin bx" "num_y B = Fin b_y" "\<bar>bx\<bar> \<le> 2 ^ 500" "\<bar>b_y\<bar> \<le> 2 ^ 500"
    and C: "num_x C = Fin cx" "num_y C = Fin cy" "\<bar>cx\<bar> \<le> 2 ^ 500" "\<bar>cy\<bar> \<le> 2 ^ 500"
  shows "\<exists>d. calculateAngle_double A B C = Fin d \<and> 0 \<le> d \<and> d \<le> 180"
proof -
  from sub_bounded [OF A(3) B(3)] obtain u where u: "js_sub (Fin ax) (Fin bx) = Fin u" "\<bar>u\<bar> \<le> 2 ^ 501"
    by blast
  from sub_bounded [OF A(4) B(4)] obtain v where v: "js_sub (Fin ay) (Fin b_y) = Fin v" "\<bar>v\<bar> \<le> 2 ^ 501"
    by blast
  from sub_bounded [OF C(3) B(3)] obtain u' where u': "js_sub (Fin cx) (Fin bx) = Fin u'" "\<bar>u'\<bar> \<le> 2 ^ 501"
    by blast
  from sub_bounded [OF C(4) B(4)] obtain v' where v': "js_sub (Fin cy) (Fin b_y) = Fin v'" "\<bar>v'\<bar> \<le> 2 ^ 501"
    by blast
  from magnitude_bounded [OF u(2) v(2)] obtain m
    where m: "js_sqrt (js_add (js_mul (Fin u) (Fin u)) (js_mul (Fin v) (Fin v))) = Fin m"
      "0 \<le> m" "m \<le> 2 ^ 502" "m \<noteq> 0 \<longrightarrow> 2 powr (- 537) \<le> m" by blast
  from magnitude_bounded [OF u'(2) v'(2)] obtain n
    where n: "js_sqrt (js_add (js_mul (Fin u') (Fin u')) (js_mul (Fin v') (Fin v'))) = Fin n"
      "0 \<le> n" "n \<le> 2 ^ 502" "n \<noteq> 0 \<longrightarrow> 2 powr (- 537) \<le> n" by blast
  from dot_bounded [OF u(2) v(2) u'(2) v'(2)] obtain d
    where d: "js_add (js_mul (Fin u) (Fin u')) (js_mul (Fin v) (Fin v')) = Fin d" by blast
  have eq: "calculateAngle_double A B C =
      (if m = 0 \<or> n = 0 then Fin 0
       else js_mul (js_acos (js_max (Fin (- 1)) (js_min (Fin 1)
                      (js_div (Fin d) (js_mul (Fin m) (Fin n))))))
              (js_div (Fin 180) (Fin math_pi)))"
    by (simp add: calculateAngle_double_def Let_def A(1,2) B(1,2) C(1,2) u(1) v(1) u'(1) v'(1)
        m(1) n(1) d del: fin_arith_del)
  show ?thesis
  proof (cases "m = 0 \<or> n = 0")
    case True
    then show ?thesis by (simp add: eq)
  next
    case False
    with m(4) n(4) have "2 powr (- 537) \<le> m" "2 powr (- 537) \<le> n" by simp_all
    from magnitudes_product [OF this(1) m(3) this(2) n(3)] obtain p
      where p: "js_mul (Fin m) (Fin n) = Fin p" "p \<noteq> 0" by blast
    have "js_div (Fin d) (Fin p) \<noteq> NaN" using p(2) by simp
    with degrees_of_cosine [of "js_div (Fin d) (Fin p)"] False show ?thesis
      by (auto simp add: eq p(1) simp del: fin_arith_del)
  qed
qed

lemma coords_within_iff:
  "coords_within P bound \<longleftrightarrow>
     (\<exists>u v. num_x P = Fin u \<and> num_y P = Fin v \<and> \<bar>u\<bar> \<le> bound \<and> \<bar>v\<bar> \<le> bound)"
  by (cases "num_x P"; cases "num_y P") (simp_all add: coords_within_def)

lemma rd64_tenth: "rd64 (1 / 10) = 3602879701896397 / 2 ^ 55"
proof -
  have "binade (1 / 10) = - 4"
    by (intro binade_eq) (simp_all add: powr_minus_divide)
  then have u: "ulp (1 / 10) = 1 / 2 ^ 56"
    by (simp add: ulp_def powr_minus_divide)
  have "round_half_even (1 / 10 / ulp (1 / 10)) = 7205759403792794"
    unfolding u by (rule round_half_even_near) simp_all
  then show ?thesis by (simp add: rd64_def u)
qed

lemma rd64_tie_to_even:
  "rd64 9007199254740993 = 9007199254740992" "rd64 9007199254740995 = 9007199254740996"
proof -
  have "binade 9007199254740993 = 53" "binade 9007199254740995 = 53"
    by (intro binade_eq; simp)+
  then have u: "ulp 9007199254740993 = 2" "ulp 9007199254740995 = 2"
    by (simp_all add: ulp_def)
  have f: "\<lfloor>(9007199254740993 :: real) / 2\<rfloor> = 4503599627370496"
    "\<lfloor>(9007199254740995 :: real) / 2\<rfloor> = 4503599627370497"
    by (intro floor_unique; simp)+
  show "rd64 9007199254740993 = 9007199254740992" "rd64 9007199254740995 = 9007199254740996"
    by (simp_all add: rd64_def u round_half_even_def Let_def f)
qed

text \<open>
  C5, as the code has it. When the vertex B has finite coordinates and A or C coincides
  with it, and whenever one of the two computed magnitudes is zero, \<open>calculateAngle\<close>
  returns exactly 0. Otherwise the quotient of the dot product by the product of the
  magnitudes is clamped to \<open>[-1, 1]\<close> before the inverse cosine, so that the result is
  NaN or lies between 0 and 180 degrees. When every coordinate is finite and at most
  \<open>2 ^ 500\<close> in absolute value, as the normalized coordinates of a landmark are, the
  result is never NaN and lies between 0 and 180. The function has no failing branch.
\<close>

theorem calculateAngle_double_spec:
  "(coords_within B bound \<longrightarrow> calculateAngle_double B B C = Fin 0 \<and> calculateAngle_double A B B = Fin 0)
   \<and> (magnitude_double A B = Fin 0 \<or> magnitude_double C B = Fin 0
        \<longrightarrow> calculateAngle_double A B C = Fin 0)
   \<and> (magnitude_double A B \<noteq> Fin 0 \<and> magnitude_double C B \<noteq> Fin 0
        \<longrightarrow> calculateAngle_double A B C =
              js_mul (js_acos (js_max (Fin (- 1)) (js_min (Fin 1)
                        (js_div (dot_double A B C)
                           (js_mul (magnitude_double A B) (magnitude_double C B))))))
                (js_div (Fin 180) (Fin math_pi)))
   \<and> (calculateAngle_double A B C = NaN
        \<or> (\<exists>d. calculateAngle_double A B C = Fin d \<and> 0 \<le> d \<and> d \<le> 180))
   \<and> (coords_within A (2 ^ 500) \<and> coords_within B (2 ^ 500) \<and> coords_within C (2 ^ 500)
        \<longrightarrow> (\<exists>d. calculateAngle_double A B C = Fin d \<and> 0 \<le> d \<and> d \<le> 180))"
proof -
  have coincident: "coords_within B bound \<longrightarrow>
      calculateAngle_double B B C = Fin 0 \<and> calculateAngle_double A B B = Fin 0"
  proof
    assume "coords_within B bound"
    then obtain u v where "num_x B = Fin u" "num_y B = Fin v"
      by (auto simp add: coords_within_iff)
    from calculateAngle_double_coincident [OF this]
    show "calculateAngle_double B B C = Fin 0 \<and> calculateAngle_double A B B = Fin 0"
      by simp
  qed
  have unfolded: "calculateAngle_double A B C =
      (if magnitude_double A B = Fin 0 \<or> magnitude_double C B = Fin 0 then Fin 0
       else js_mul (js_acos (js_max (Fin (- 1)) (js_min (Fin 1)
                        (js_div (dot_double A B C)
                           (js_mul (magnitude_double A B) (magnitude_double C B))))))
                (js_div (Fin 180) (Fin math_pi)))"
    by (simp add: calculateAngle_double_def magnitude_double_def dot_double_def Let_def
        del: fin_arith_del)
  have bounded: "coords_within A (2 ^ 500) \<and> coords_within B (2 ^ 500) \<and> coords_within C (2 ^ 500)
        \<longrightarrow> (\<exists>d. calculateAngle_double A B C = Fin d \<and> 0 \<le> d \<and> d \<le> 180)"
  proof
    assume "coords_within A (2 ^ 500) \<and> coords_within B (2 ^ 500) \<and> coords_within C (2 ^ 500)"
    then obtain ax ay bx b_y cx cy
      where "num_x A = Fin ax" "num_y A = Fin ay" "\<bar>ax\<bar> \<le> 2 ^ 500" "\<bar>ay\<bar> \<le> 2 ^ 500"
        and "num_x B = Fin bx" "num_y B = Fin b_y" "\<bar>bx\<bar> \<le> 2 ^ 500" "\<bar>b_y\<bar> \<le> 2 ^ 500"
        and "num_x C = Fin cx" "num_y C = Fin cy" "\<bar>cx\<bar> \<le> 2 ^ 500" "\<bar>cy\<bar> \<le> 2 ^ 500"
      unfolding coords_within_iff by blast
    then show "\<exists>d. calculateAngle_double A B C = Fin d \<and> 0 \<le> d \<and> d \<le> 180"
      by (rule calculateAngle_double_bounded)
  qed
  from coincident unfolded calculateAngle_double_range [of A B C] bounded show ?thesis
    by presburger
qed

theorem calculateAngle_double_spec_witness:
  "calculateAngle_double \<lparr>num_x = Fin (1 / 2), num_y = Fin (1 / 4)\<rparr>
       \<lparr>num_x = Fin (1 / 2), num_y = Fin (1 / 4)\<rparr> \<lparr>num_x = Fin 1, num_y = Fin 0\<rparr> = Fin 0
   \<and> (\<exists>d. calculateAngle_double \<lparr>num_x = Fin 1, num_y = Fin 0\<rparr> \<lparr>num_x = Fin 0, num_y = Fin 0\<rparr>
             \<lparr>num_x = Fin 0, num_y = Fin 1\<rparr> = Fin d \<and> 0 \<le> d \<and> d \<le> 180)"
  using calculateAngle_double_spec [of "\<lparr>num_x = Fin (1 / 2), num_y = Fin (1 / 4)\<rparr>" 1
      "\<lparr>num_x = Fin 1, num_y = Fin 0\<rparr>" "\<lparr>num_x = Fin 1, num_y = Fin 0\<rparr>"]
    calculateAngle_double_spec [of "\<lparr>num_x = Fin 0, num_y = Fin 0\<rparr>" 1
      "\<lparr>num_x = Fin 0, num_y = Fin 1\<rparr>" "\<lparr>num_x = Fin 1, num_y = Fin 0\<rparr>"]
  by (simp add: coords_within_def)

text \<open>
  C5 as stated fails for finite coordinates whose squares overflow: with A and C at
  \<open>(2 ^ 600, 0)\<close> and B at the origin the squares are infinite, the quotient is
  infinity by infinity, and the result is NaN, which is not in \<open>[0, 180]\<close>.
\<close>

theorem calculateAngle_overflow_counterexample:
  "calculateAngle_double \<lparr>num_x = Fin (2 ^ 600), num_y = Fin 0\<rparr> \<lparr>num_x = Fin 0, num_y = Fin 0\<rparr>
     \<lparr>num_x = Fin (2 ^ 600), num_y = Fin 0\<rparr> = NaN"
  using big_minus_zero overflow_square by (rule overflow_gives_NaN)

text \<open>
  C6. \<open>calculateAngle\<close> is symmetric in its two end points:
  \<open>calculateAngle A B C = calculateAngle C B A\<close> for all points.
\<close>

theorem calculateAngle_symmetric: "calculateAngle A B C = calculateAngle C B A"
  by (simp add: calculateAngle_def Let_def mult.commute)

section \<open>The landmark accessor\<close>

lemma getLandmarkCoordinates_nat:
  "getLandmarkCoordinates (Some l) (int n) = Inr (landmark_at l n)"
  by (simp add: getLandmarkCoordinates_def landmark_at_def Let_def)

lemma getLandmarkCoordinates_numeral [simp]:
  "getLandmarkCoordinates (Some l) (numeral k) = Inr (landmark_at l (numeral k))"
  using getLandmarkCoordinates_nat [of l "numeral k"] by simp

lemma getLandmarkCoordinates_zero [simp]:
  "getLandmarkCoordinates (Some l) 0 = Inr (landmark_at l 0)"
  using getLandmarkCoordinates_nat [of l 0] by simp

lemma getLandmarkCoordinates_absent [simp]:
  "getLandmarkCoordinates None i = Inr \<lparr>x = 0, y = 0\<rparr>"
  by (simp add: getLandmarkCoordinates_def)

lemma try_read_Inr [simp]: "try_read (Inr p) caught continue = continue p"
  by (simp add: try_read_def)

lemma try_read_Inl [simp]: "try_read (Inl err) caught continue = caught"
  by (simp add: try_read_def)

text \<open>
  C4, as the code has it. For an absent sequence the accessor returns the zero
  coordinate at every index. For a sequence that is present and an index that is not
  negative it returns without raising: the zero coordinate when the index is at or
  beyond the length (so always for the empty sequence), the coordinates of the landmark
  otherwise.
\<close>

theorem getLandmarkCoordinates_guarded:
  "getLandmarkCoordinates None i = Inr \<lparr>x = 0, y = 0\<rparr>
   \<and> (0 \<le> i \<longrightarrow>
        getLandmarkCoordinates (Some l) i =
          Inr (if int (length l) \<le> i then \<lparr>x = 0, y = 0\<rparr>
               else \<lparr>x = x (l ! nat i), y = y (l ! nat i)\<rparr>))"
  by (simp add: getLandmarkCoordinates_def Let_def)

theorem getLandmarkCoordinates_guarded_witness:
  "getLandmarkCoordinates (Some [\<lparr>x = 1 / 2, y = 1 / 4\<rparr>]) 0 = Inr \<lparr>x = 1 / 2, y = 1 / 4\<rparr>
   \<and> getLandmarkCoordinates (Some [\<lparr>x = 1 / 2, y = 1 / 4\<rparr>]) 11 = Inr \<lparr>x = 0, y = 0\<rparr>
   \<and> getLandmarkCoordinates (Some []) 0 = Inr \<lparr>x = 0, y = 0\<rparr>"
  using getLandmarkCoordinates_guarded [of 0 "[\<lparr>x = 1 / 2, y = 1 / 4\<rparr>]"]
    getLandmarkCoordinates_guarded [of 11 "[\<lparr>x = 1 / 2, y = 1 / 4\<rparr>]"]
    getLandmarkCoordinates_guarded [of 0 "[]"]
  by simp

text \<open>
  C4 as stated fails below zero: on the empty sequence and index \<open>-1\<close> the guard does
  not fire and the read raises a \<open>TypeError\<close>.
\<close>

theorem getLandmarkCoordinates_negative_index_counterexample:
  "getLandmarkCoordinates (Some []) (- 1) = Inl TypeError"
  by (simp add: getLandmarkCoordinates_def)

section \<open>Posture verification\<close>

lemma pushup_angles_eq:
  "pushup_angles (Some l) a =
     a\<lparr>elbow_angle_left := calculateAngle (landmark_at l 11) (landmark_at l 13) (landmark_at l 15),
       elbow_angle_right := calculateAngle (landmark_at l 12) (landmark_at l 14) (landmark_at l 16)\<rparr>"
  by (simp add: pushup_angles_def Let_def)

lemma handstand_angles_eq:
  "handstand_angles (Some l) a =
     a\<lparr>shoulder_hip_ankle_angle_left := calculateAngle (landmark_at l 11) (landmark_at l 23) (landmark_at l 27),
       shoulder_hip_ankle_angle_right := calculateAngle (landmark_at l 12) (landmark_at l 24) (landmark_at l 28),
       elbow_angle_left := calculateAngle (landmark_at l 11) (landmark_at l 13) (landmark_at l 15),
       elbow_angle_right := calculateAngle (landmark_at l 12) (landmark_at l 14) (landmark_at l 16)\<rparr>"
  by (simp add: handstand_angles_def Let_def)

text \<open>
  C8. \<open>verifyPosture\<close> returns all four angles 0 when the landmark sequence is absent
  or empty or the exercise type is neither \<open>pushup\<close> nor \<open>handstand\<close>. On a non-empty
  frame, \<open>pushup\<close> computes the two elbow angles and leaves both shoulder-hip-ankle
  angles 0, and \<open>handstand\<close> computes all four.
\<close>

theorem verifyPosture_angles:
  "(lms = None \<or> lms = Some [] \<or> (exerciseType \<noteq> ''pushup'' \<and> exerciseType \<noteq> ''handstand'')
      \<longrightarrow> verifyPosture lms exerciseType =
            \<lparr>elbow_angle_left = 0, elbow_angle_right = 0,
             shoulder_hip_ankle_angle_left = 0, shoulder_hip_ankle_angle_right = 0\<rparr>)
   \<and> (l \<noteq> [] \<longrightarrow> verifyPosture (Some l) ''pushup'' =
            \<lparr>elbow_angle_left = calculateAngle (landmark_at l 11) (landmark_at l 13) (landmark_at l 15),
             elbow_angle_right = calculateAngle (landmark_at l 12) (landmark_at l 14) (landmark_at l 16),
             shoulder_hip_ankle_angle_left = 0, shoulder_hip_ankle_angle_right = 0\<rparr>)
   \<and> (l \<noteq> [] \<longrightarrow> verifyPosture (Some l) ''handstand'' =
            \<lparr>elbow_angle_left = calculateAngle (landmark_at l 11) (landmark_at l 13) (landmark_at l 15),
             elbow_angle_right = calculateAngle (landmark_at l 12) (landmark_at l 14) (landmark_at l 16),
             shoulder_hip_ankle_angle_left =
               calculateAngle (landmark_at l 11) (landmark_at l 23) (landmark_at l 27),
             shoulder_hip_ankle_angle_right =
               calculateAngle (landmark_at l 12) (landmark_at l 24) (landmark_at l 28)\<rparr>)"
proof -
  have none: "lms = None \<or> lms = Some [] \<or> (exerciseType \<noteq> ''pushup'' \<and> exerciseType \<noteq> ''handstand'')
      \<longrightarrow> verifyPosture lms exerciseType =
            \<lparr>elbow_angle_left = 0, elbow_angle_right = 0,
             shoulder_hip_ankle_angle_left = 0, shoulder_hip_ankle_angle_right = 0\<rparr>"
    by (auto simp add: verifyPosture_def zero_angles_def Let_def split: option.splits)
  have pu: "l \<noteq> [] \<longrightarrow> verifyPosture (Some l) ''pushup'' =
            \<lparr>elbow_angle_left = calculateAngle (landmark_at l 11) (landmark_at l 13) (landmark_at l 15),
             elbow_angle_right = calculateAngle (landmark_at l 12) (landmark_at l 14) (landmark_at l 16),
             shoulder_hip_ankle_angle_left = 0, shoulder_hip_ankle_angle_right = 0\<rparr>"
    by (simp add: verifyPosture_def zero_angles_def pushup_angles_eq Let_def)
  have hs: "l \<noteq> [] \<longrightarrow> verifyPosture (Some l) ''handstand'' =
            \<lparr>elbow_angle_left = calculateAngle (landmark_at l 11) (landmark_at l 13) (landmark_at l 15),
             elbow_angle_right = calculateAngle (landmark_at l 12) (landmark_at l 14) (landmark_at l 16),
             shoulder_hip_ankle_angle_left =
               calculateAngle (landmark_at l 11) (landmark_at l 23) (landmark_at l 27),
             shoulder_hip_ankle_angle_right =
               calculateAngle (landmark_at l 12) (landmark_at l 24) (landmark_at l 28)\<rparr>"
    by (simp add: verifyPosture_def zero_angles_def handstand_angles_eq Let_def)
  from none pu hs show ?thesis by blast
qed

theorem verifyPosture_angles_witness:
  "verifyPosture (Some []) ''pushup'' =
     \<lparr>elbow_angle_left = 0, elbow_angle_right = 0,
      shoulder_hip_ankle_angle_left = 0, shoulder_hip_ankle_angle_right = 0\<rparr>
   \<and> verifyPosture (Some [\<lparr>x = 1, y = 1\<rparr>]) ''squat'' =
     \<lparr>elbow_angle_left = 0, elbow_angle_right = 0,
      shoulder_hip_ankle_angle_left = 0, shoulder_hip_ankle_angle_right = 0\<rparr>
   \<and> shoulder_hip_ankle_angle_left (verifyPosture (Some [\<lparr>x = 1, y = 1\<rparr>]) ''pushup'') = 0
   \<and> elbow_angle_left (verifyPosture (Some [\<lparr>x = 1, y = 1\<rparr>]) ''handstand'') =
       calculateAngle \<lparr>x = 0, y = 0\<rparr> \<lparr>x = 0, y = 0\<rparr> \<lparr>x = 0, y = 0\<rparr>"
  using verifyPosture_angles [of "Some []" "''pushup''" "[\<lparr>x = 1, y = 1\<rparr>]"]
    verifyPosture_angles [of "Some [\<lparr>x = 1, y = 1\<rparr>]" "''squat''" "[\<lparr>x = 1, y = 1\<rparr>]"]
  by (simp add: landmark_at_def)

section \<open>The no-pose answer\<close>

text \<open>
  C1, as the code has it. For an absent or empty landmark sequence, whatever the
  exercise type, \<open>analyzeAndCoach\<close> returns priority \<open>critical\<close>, the message
  "Position yourself in camera view", exactly one tip and no motivational line; the
  object has neither \<open>currentAngles\<close> nor \<open>sessionStats\<close>, and the coach is unchanged.
\<close>

theorem analyzeAndCoach_no_pose:
  "lms = None \<or> lms = Some [] \<Longrightarrow>
     analyzeAndCoach c e lms exerciseType =
       (\<lparr>primaryFeedback = ''Position yourself in camera view'',
         tips = [''Make sure your full body is visible''],
         priority = Critical, motivational = [],
         currentAngles = None, sessionStats = None\<rparr>, c)"
  by (auto simp add: analyzeAndCoach_def no_pose_result_def)

theorem analyzeAndCoach_no_pose_witness:
  "priority (fst (analyzeAndCoach (newPoseCoach True) \<lparr>clock = 5, rnd = 0\<rparr> (Some []) ''handstand'')) = Critical
   \<and> length (tips (fst (analyzeAndCoach (newPoseCoach True) \<lparr>clock = 5, rnd = 0\<rparr> (Some []) ''handstand''))) = 1
   \<and> snd (analyzeAndCoach (newPoseCoach True) \<lparr>clock = 5, rnd = 0\<rparr> None ''pushup'') = newPoseCoach True"
  using analyzeAndCoach_no_pose [of "Some []" "newPoseCoach True" "\<lparr>clock = 5, rnd = 0\<rparr>" "''handstand''"]
    analyzeAndCoach_no_pose [of None "newPoseCoach True" "\<lparr>clock = 5, rnd = 0\<rparr>" "''pushup''"]
  by simp

text \<open>
  C1 as stated fails: the object returned for an absent pose carries neither
  \<open>currentAngles\<close> nor \<open>sessionStats\<close>, while the object returned for a frame does.
\<close>

theorem analyzeAndCoach_no_pose_counterexample:
  "currentAngles (fst (analyzeAndCoach (newPoseCoach False) \<lparr>clock = 0, rnd = 0\<rparr> None ''pushup'')) = None
   \<and> sessionStats (fst (analyzeAndCoach (newPoseCoach False) \<lparr>clock = 0, rnd = 0\<rparr> None ''pushup'')) = None
   \<and> currentAngles (fst (analyzeAndCoach (newPoseCoach False) \<lparr>clock = 0, rnd = 0\<rparr>
        (Some [\<lparr>x = 0, y = 0\<rparr>]) ''pushup'')) \<noteq> None"
  by (simp add: analyzeAndCoach_def no_pose_result_def Let_def split_def)

section \<open>Correctness against the reference ranges\<close>

lemma check_entry_other:
  "name \<noteq> fst entry \<Longrightarrow> check_entry ref m entry name = m name"
  by (cases entry) (auto simp add: check_entry_def split: option.splits)

lemma check_entry_cong:
  "m name = m' name \<Longrightarrow> check_entry ref m (name, v) name = check_entry ref m' (name, v) name"
  by (auto simp add: check_entry_def split: option.splits)

lemma foldl_check_entry:
  "distinct (map fst angs) \<Longrightarrow>
     foldl (check_entry ref) m angs name =
       (case map_of angs name of None \<Rightarrow> m name | Some v \<Rightarrow> check_entry ref m (name, v) name)"
proof (induction angs arbitrary: m)
  case Nil
  then show ?case by simp
next
  case (Cons a angs)
  obtain k v where a: "a = (k, v)" by (cases a)
  from Cons.prems a have dist: "distinct (map fst angs)" and fresh: "k \<notin> fst ` set angs"
    by auto
  have IH: "foldl (check_entry ref) (check_entry ref m a) angs name =
       (case map_of angs name of None \<Rightarrow> check_entry ref m a name
        | Some w \<Rightarrow> check_entry ref (check_entry ref m a) (name, w) name)"
    using Cons.IH [OF dist] .
  show ?case
  proof (cases "name = k")
    case True
    with fresh have "map_of angs name = None"
      by (simp add: map_of_eq_None_iff)
    with IH True a show ?thesis by simp
  next
    case False
    then have same: "check_entry ref m a name = m name"
      using a by (simp add: check_entry_other)
    have "check_entry ref (check_entry ref m a) (name, w) name = check_entry ref m (name, w) name" for w
      using same by (rule check_entry_cong)
    with IH same False a show ?thesis
      by (simp split: option.splits)
  qed
qed

lemma includes_ids:
  "includes_str ''elbow_angle_left'' ''elbow_angle''"
  "includes_str ''elbow_angle_right'' ''elbow_angle''"
  "\<not> includes_str ''shoulder_hip_ankle_angle_left'' ''elbow_angle''"
  "\<not> includes_str ''shoulder_hip_ankle_angle_right'' ''elbow_angle''"
  "includes_str ''shoulder_hip_ankle_angle_left'' ''shoulder_hip_ankle''"
  "includes_str ''shoulder_hip_ankle_angle_right'' ''shoulder_hip_ankle''"
  unfolding includes_str_def by code_simp+

lemma reference_pushup:
  "map_of loadReferenceData ''pushup'' = Some [(''elbow_angle'', (90, 120))]"
  by (simp add: loadReferenceData_def)

lemma reference_handstand:
  "map_of loadReferenceData ''handstand'' =
     Some [(''shoulder_hip_ankle_angle'', (170, 180)), (''elbow_angle'', (160, 180))]"
  by (simp add: loadReferenceData_def)

lemma reference_unknown:
  "exerciseType \<noteq> ''pushup'' \<Longrightarrow> exerciseType \<noteq> ''handstand'' \<Longrightarrow>
     map_of loadReferenceData exerciseType = None"
  by (simp add: loadReferenceData_def)

lemma check_pushup:
  assumes "distinct (map fst angs)"
  shows "checkPostureCorrectness angs ''pushup'' name =
     (case map_of angs name of
        None \<Rightarrow> None
      | Some v \<Rightarrow> if includes_str name ''elbow_angle'' then Some (90 \<le> v \<and> v \<le> 120) else None)"
  using foldl_check_entry [OF assms, of "[(''elbow_angle'', (90, 120))]" Map.empty name]
  by (simp add: checkPostureCorrectness_def reference_pushup check_entry_def split: option.splits)

lemma check_handstand:
  assumes "distinct (map fst angs)"
  shows "checkPostureCorrectness angs ''handstand'' name =
     (case map_of angs name of
        None \<Rightarrow> None
      | Some v \<Rightarrow> if includes_str name ''elbow_angle'' then Some (160 \<le> v \<and> v \<le> 180)
                  else if includes_str name ''shoulder_hip_ankle'' then Some (170 \<le> v \<and> v \<le> 180)
                  else None)"
  using foldl_check_entry [OF assms,
      of "[(''shoulder_hip_ankle_angle'', (170, 180)), (''elbow_angle'', (160, 180))]" Map.empty name]
  by (simp add: checkPostureCorrectness_def reference_handstand check_entry_def split: option.splits)

lemma check_unknown:
  "exerciseType \<noteq> ''pushup'' \<Longrightarrow> exerciseType \<noteq> ''handstand'' \<Longrightarrow>
     checkPostureCorrectness angs exerciseType = Map.empty"
  by (simp add: checkPostureCorrectness_def reference_unknown)

lemma distinct_angle_entries: "distinct (map fst (angle_entries a))"
  by (simp add: angle_entries_def)

lemma map_of_angle_entries:
  "map_of (angle_entries a) name =
     (if name = ''elbow_angle_left'' then Some (elbow_angle_left a)
      else if name = ''elbow_angle_right'' then Some (elbow_angle_right a)
      else if name = ''shoulder_hip_ankle_angle_left'' then Some (shoulder_hip_ankle_angle_left a)
      else if name = ''shoulder_hip_ankle_angle_right'' then Some (shoulder_hip_ankle_angle_right a)
      else None)"
  by (simp add: angle_entries_def)

lemma check_pushup_angle_set:
  "checkPostureCorrectness (angle_entries a) ''pushup'' =
     [''elbow_angle_left'' \<mapsto> (90 \<le> elbow_angle_left a \<and> elbow_angle_left a \<le> 120),
      ''elbow_angle_right'' \<mapsto> (90 \<le> elbow_angle_right a \<and> elbow_angle_right a \<le> 120)]"
proof
  fix name
  show "checkPostureCorrectness (angle_entries a) ''pushup'' name =
     [''elbow_angle_left'' \<mapsto> (90 \<le> elbow_angle_left a \<and> elbow_angle_left a \<le> 120),
      ''elbow_angle_right'' \<mapsto> (90 \<le> elbow_angle_right a \<and> elbow_angle_right a \<le> 120)] name"
    using includes_ids
    by (simp add: check_pushup [OF distinct_angle_entries] map_of_angle_entries)
qed

lemma check_handstand_angle_set:
  "checkPostureCorrectness (angle_entries a) ''handstand'' =
     [''elbow_angle_left'' \<mapsto> (160 \<le> elbow_angle_left a \<and> elbow_angle_left a \<le> 180),
      ''elbow_angle_right'' \<mapsto> (160 \<le> elbow_angle_right a \<and> elbow_angle_right a \<le> 180),
      ''shoulder_hip_ankle_angle_left'' \<mapsto>
         (170 \<le> shoulder_hip_ankle_angle_left a \<and> shoulder_hip_ankle_angle_left a \<le> 180),
      ''shoulder_hip_ankle_angle_right'' \<mapsto>
         (170 \<le> shoulder_hip_ankle_angle_right a \<and> shoulder_hip_ankle_angle_right a \<le> 180)]"
proof
  fix name
  show "checkPostureCorrectness (angle_entries a) ''handstand'' name =
     [''elbow_angle_left'' \<mapsto> (160 \<le> elbow_angle_left a \<and> elbow_angle_left a \<le> 180),
      ''elbow_angle_right'' \<mapsto> (160 \<le> elbow_angle_right a \<and> elbow_angle_right a \<le> 180),
      ''shoulder_hip_ankle_angle_left'' \<mapsto>
         (170 \<le> shoulder_hip_ankle_angle_left a \<and> shoulder_hip_ankle_angle_left a \<le> 180),
      ''shoulder_hip_ankle_angle_right'' \<mapsto>
         (170 \<le> shoulder_hip_ankle_angle_right a \<and> shoulder_hip_ankle_angle_right a \<le> 180)] name"
    using includes_ids
    by (simp add: check_handstand [OF distinct_angle_entries] map_of_angle_entries)
qed

text \<open>
  C7. The angle set is an object, so its names are distinct. For an exercise type other
  than \<open>pushup\<close> and \<open>handstand\<close> the result is empty. For \<open>pushup\<close> a name has an
  entry exactly when it is a name of the angle set that contains \<open>elbow_angle\<close>, and
  the entry tells whether the value lies in \<open>[90, 120]\<close>, bounds included. For
  \<open>handstand\<close> the elbow names are judged against \<open>[160, 180]\<close> and the
  shoulder-hip-ankle names against \<open>[170, 180]\<close>. A name matching no bucket has no
  entry; in particular the result for \<open>pushup\<close> has no entry for either
  shoulder-hip-ankle angle. On the angle set of \<open>verifyPosture\<close> the results are the
  two maps written out.
\<close>

theorem checkPostureCorrectness_buckets:
  assumes "distinct (map fst angs)"
  shows "(exerciseType \<noteq> ''pushup'' \<and> exerciseType \<noteq> ''handstand''
            \<longrightarrow> checkPostureCorrectness angs exerciseType = Map.empty)
   \<and> checkPostureCorrectness angs ''pushup'' name =
       (case map_of angs name of
          None \<Rightarrow> None
        | Some v \<Rightarrow> if includes_str name ''elbow_angle'' then Some (90 \<le> v \<and> v \<le> 120) else None)
   \<and> checkPostureCorrectness angs ''handstand'' name =
       (case map_of angs name of
          None \<Rightarrow> None
        | Some v \<Rightarrow> if includes_str name ''elbow_angle'' then Some (160 \<le> v \<and> v \<le> 180)
                    else if includes_str name ''shoulder_hip_ankle'' then Some (170 \<le> v \<and> v \<le> 180)
                    else None)
   \<and> ''shoulder_hip_ankle_angle_left'' \<notin> dom (checkPostureCorrectness angs ''pushup'')
   \<and> ''shoulder_hip_ankle_angle_right'' \<notin> dom (checkPostureCorrectness angs ''pushup'')
   \<and> checkPostureCorrectness (angle_entries a) ''pushup'' =
       [''elbow_angle_left'' \<mapsto> (90 \<le> elbow_angle_left a \<and> elbow_angle_left a \<le> 120),
        ''elbow_angle_right'' \<mapsto> (90 \<le> elbow_angle_right a \<and> elbow_angle_right a \<le> 120)]
   \<and> checkPostureCorrectness (angle_entries a) ''handstand'' =
       [''elbow_angle_left'' \<mapsto> (160 \<le> elbow_angle_left a \<and> elbow_angle_left a \<le> 180),
        ''elbow_angle_right'' \<mapsto> (160 \<le> elbow_angle_right a \<and> elbow_angle_right a \<le> 180),
        ''shoulder_hip_ankle_angle_left'' \<mapsto>
           (170 \<le> shoulder_hip_ankle_angle_left a \<and> shoulder_hip_ankle_angle_left a \<le> 180),
        ''shoulder_hip_ankle_angle_right'' \<mapsto>
           (170 \<le> shoulder_hip_ankle_angle_right a \<and> shoulder_hip_ankle_angle_right a \<le> 180)]"
proof -
  have absent_left: "''shoulder_hip_ankle_angle_left'' \<notin> dom (checkPostureCorrectness angs ''pushup'')"
    using includes_ids by (simp add: domIff check_pushup [OF assms] split: option.splits)
  have absent_right: "''shoulder_hip_ankle_angle_right'' \<notin> dom (checkPostureCorrectness angs ''pushup'')"
    using includes_ids by (simp add: domIff check_pushup [OF assms] split: option.splits)
  from check_unknown [of exerciseType angs] check_pushup [OF assms, of name]
    check_handstand [OF assms, of name] absent_left absent_right
    check_pushup_angle_set [of a] check_handstand_angle_set [of a]
  show ?thesis by blast
qed

theorem checkPostureCorrectness_buckets_witness:
  "checkPostureCorrectness [(''elbow_angle_left'', 120), (''knee_angle'', 95)] ''squat'' = Map.empty
   \<and> checkPostureCorrectness [(''elbow_angle_left'', 120), (''knee_angle'', 95)] ''pushup''
        ''elbow_angle_left'' = Some True
   \<and> checkPostureCorrectness [(''elbow_angle_left'', 120), (''knee_angle'', 95)] ''handstand''
        ''elbow_angle_left'' = Some False
   \<and> checkPostureCorrectness [(''elbow_angle_left'', 120), (''knee_angle'', 95)] ''pushup''
        ''knee_angle'' = None"
proof -
  have d: "distinct (map fst [(''elbow_angle_left'', 120 :: real), (''knee_angle'', 95)])"
    by simp
  have k: "\<not> includes_str ''knee_angle'' ''elbow_angle''"
    unfolding includes_str_def by code_simp
  show ?thesis
    using checkPostureCorrectness_buckets [OF d, of "''squat''" "''elbow_angle_left''"]
      checkPostureCorrectness_buckets [OF d, of "''squat''" "''knee_angle''"]
      includes_ids(1) k
    by simp
qed

section \<open>The push-up state machine\<close>

lemma speak_keeps [simp]:
  "pushup (speak c e t u) = pushup c"
  "handstand (speak c e t u) = handstand c"
  "frameHistory (speak c e t u) = frameHistory c"
  by (simp_all add: speak_def Let_def)

lemma add_tip_keeps [simp]:
  "primaryFeedback (add_tip t fb) = primaryFeedback fb"
  "priority (add_tip t fb) = priority fb"
  "motivational (add_tip t fb) = motivational fb"
  by (simp_all add: add_tip_def)

lemma pushup_rep_step_pushup:
  "pushup (pushup_rep_step c e avg) =
     (if avg > 160 \<and> position (pushup c) = Down
      then (pushup c)\<lparr>position := Up, repCount := repCount (pushup c) + 1, lastRepTime := clock e\<rparr>
      else if avg < 90 \<and> position (pushup c) = Up then (pushup c)\<lparr>position := Down\<rparr>
      else pushup c)"
  by (simp add: pushup_rep_step_def Let_def)

lemma pushup_rep_step_keeps [simp]:
  "handstand (pushup_rep_step c e avg) = handstand c"
  "frameHistory (pushup_rep_step c e avg) = frameHistory c"
  by (simp_all add: pushup_rep_step_def Let_def)

lemma pushup_ladder_keeps [simp]:
  "pushup (snd (pushup_ladder c e lms l r)) = pushup c"
  "handstand (snd (pushup_ladder c e lms l r)) = handstand c"
  "frameHistory (snd (pushup_ladder c e lms l r)) = frameHistory c"
  by (simp_all add: pushup_ladder_def Let_def)

lemma analyzePushup_snd:
  "snd (analyzePushup c e lms angs) =
     snd (pushup_ladder (pushup_rep_step c e (mean_elbow angs)) e lms
            (elbow_angle_left angs) (elbow_angle_right angs))"
  by (simp add: analyzePushup_def Let_def split_def mean_elbow_def)

lemma analyzePushup_pushup:
  "pushup (snd (analyzePushup c e lms angs)) =
     (if mean_elbow angs > 160 \<and> position (pushup c) = Down
      then (pushup c)\<lparr>position := Up, repCount := repCount (pushup c) + 1, lastRepTime := clock e\<rparr>
      else if mean_elbow angs < 90 \<and> position (pushup c) = Up then (pushup c)\<lparr>position := Down\<rparr>
      else pushup c)"
  by (simp add: analyzePushup_snd pushup_rep_step_pushup)

lemma analyzePushup_keeps [simp]:
  "handstand (snd (analyzePushup c e lms angs)) = handstand c"
  "frameHistory (snd (analyzePushup c e lms angs)) = frameHistory c"
  by (simp_all add: analyzePushup_snd)

lemma handstand_hold_step_keeps [simp]:
  "pushup (handstand_hold_step c e inverted) = pushup c"
  "frameHistory (handstand_hold_step c e inverted) = frameHistory c"
  by (simp_all add: handstand_hold_step_def Let_def)

lemma handstand_ladder_keeps [simp]:
  "pushup (snd (handstand_ladder c e lms angs)) = pushup c"
  "handstand (snd (handstand_ladder c e lms angs)) = handstand c"
  "frameHistory (snd (handstand_ladder c e lms angs)) = frameHistory c"
  by (simp_all add: handstand_ladder_def Let_def)

lemma analyzeHandstand_keeps [simp]:
  "pushup (snd (analyzeHandstand c e lms angs)) = pushup c"
  "frameHistory (snd (analyzeHandstand c e lms angs)) = frameHistory c"
  by (simp_all add: analyzeHandstand_def Let_def split_def)

lemma generateFeedback_history [simp]:
  "frameHistory (snd (generateFeedback c e lms angs exerciseType)) = frameHistory c"
  by (simp add: generateFeedback_def)

lemma rep_counts_sequence:
  assumes "map (\<lambda>frame. mean_elbow (snd (snd frame))) frames = [200, 200, 200, 50, 50, 200]"
  shows "rep_counts (newPoseCoach callback) frames = [0, 0, 0, 0, 0, 1]"
proof -
  from assms obtain f1 f2 f3 f4 f5 f6 where fr: "frames = [f1, f2, f3, f4, f5, f6]"
    by (auto simp add: map_eq_Cons_conv)
  obtain e1 l1 a1 where f1: "f1 = (e1, l1, a1)" by (cases f1)
  obtain e2 l2 a2 where f2: "f2 = (e2, l2, a2)" by (cases f2)
  obtain e3 l3 a3 where f3: "f3 = (e3, l3, a3)" by (cases f3)
  obtain e4 l4 a4 where f4: "f4 = (e4, l4, a4)" by (cases f4)
  obtain e5 l5 a5 where f5: "f5 = (e5, l5, a5)" by (cases f5)
  obtain e6 l6 a6 where f6: "f6 = (e6, l6, a6)" by (cases f6)
  from assms fr f1 f2 f3 f4 f5 f6 have m:
    "mean_elbow a1 = 200" "mean_elbow a2 = 200" "mean_elbow a3 = 200"
    "mean_elbow a4 = 50" "mean_elbow a5 = 50" "mean_elbow a6 = 200"
    by simp_all
  define c0 where "c0 = newPoseCoach callback"
  define c1 where "c1 = snd (analyzePushup c0 e1 l1 a1)"
  define c2 where "c2 = snd (analyzePushup c1 e2 l2 a2)"
  define c3 where "c3 = snd (analyzePushup c2 e3 l3 a3)"
  define c4 where "c4 = snd (analyzePushup c3 e4 l4 a4)"
  define c5 where "c5 = snd (analyzePushup c4 e5 l5 a5)"
  define c6 where "c6 = snd (analyzePushup c5 e6 l6 a6)"
  have p0: "pushup c0 = \<lparr>position = Up, repCount = 0, lastRepTime = 0\<rparr>"
    by (simp add: c0_def newPoseCoach_def initialExerciseState_def)
  have p1: "pushup c1 = \<lparr>position = Up, repCount = 0, lastRepTime = 0\<rparr>"
    by (simp add: c1_def analyzePushup_pushup m p0)
  have p2: "pushup c2 = \<lparr>position = Up, repCount = 0, lastRepTime = 0\<rparr>"
    by (simp add: c2_def analyzePushup_pushup m p1)
  have p3: "pushup c3 = \<lparr>position = Up, repCount = 0, lastRepTime = 0\<rparr>"
    by (simp add: c3_def analyzePushup_pushup m p2)
  have p4: "pushup c4 = \<lparr>position = Down, repCount = 0, lastRepTime = 0\<rparr>"
    by (simp add: c4_def analyzePushup_pushup m p3)
  have p5: "pushup c5 = \<lparr>position = Down, repCount = 0, lastRepTime = 0\<rparr>"
    by (simp add: c5_def analyzePushup_pushup m p4)
  have p6: "pushup c6 = \<lparr>position = Up, repCount = 1, lastRepTime = clock e6\<rparr>"
    by (simp add: c6_def analyzePushup_pushup m p5)
  have "rep_counts c0 frames =
      [repCount (pushup c1), repCount (pushup c2), repCount (pushup c3),
       repCount (pushup c4), repCount (pushup c5), repCount (pushup c6)]"
    by (simp add: fr f1 f2 f3 f4 f5 f6 Let_def c1_def c2_def c3_def c4_def c5_def c6_def)
  then show ?thesis
    by (simp add: p1 p2 p3 p4 p5 p6 c0_def)
qed

text \<open>
  C3. A new coach is in position \<open>up\<close> with rep count 0. A call of \<open>analyzePushup\<close>
  moves from \<open>down\<close> to \<open>up\<close> exactly when the mean of the two elbow angles exceeds 160
  in position \<open>down\<close>, and from \<open>up\<close> to \<open>down\<close> exactly when the mean is below 90 in
  position \<open>up\<close>. The rep count grows by one on the first of these transitions and is
  unchanged otherwise; \<open>analyzeHandstand\<close> leaves it alone. From a new coach, frames
  with means 200, 200, 200, 50, 50, 200 give the rep counts 0, 0, 0, 0, 0, 1.
\<close>

theorem pushup_rep_counter:
  "position (pushup (newPoseCoach callback)) = Up
   \<and> repCount (pushup (newPoseCoach callback)) = 0
   \<and> ((position (pushup c) = Down \<and> position (pushup (snd (analyzePushup c e lms angs))) = Up)
        \<longleftrightarrow> (mean_elbow angs > 160 \<and> position (pushup c) = Down))
   \<and> ((position (pushup c) = Up \<and> position (pushup (snd (analyzePushup c e lms angs))) = Down)
        \<longleftrightarrow> (mean_elbow angs < 90 \<and> position (pushup c) = Up))
   \<and> repCount (pushup (snd (analyzePushup c e lms angs))) =
       (if mean_elbow angs > 160 \<and> position (pushup c) = Down
        then repCount (pushup c) + 1 else repCount (pushup c))
   \<and> repCount (pushup (snd (analyzeHandstand c e lms angs))) = repCount (pushup c)
   \<and> (map (\<lambda>frame. mean_elbow (snd (snd frame))) frames = [200, 200, 200, 50, 50, 200]
        \<longrightarrow> rep_counts (newPoseCoach callback) frames = [0, 0, 0, 0, 0, 1])"
proof -
  have init: "position (pushup (newPoseCoach callback)) = Up
      \<and> repCount (pushup (newPoseCoach callback)) = 0"
    by (simp add: newPoseCoach_def initialExerciseState_def)
  have up: "(position (pushup c) = Down \<and> position (pushup (snd (analyzePushup c e lms angs))) = Up)
        \<longleftrightarrow> (mean_elbow angs > 160 \<and> position (pushup c) = Down)"
    by (auto simp add: analyzePushup_pushup)
  have down: "(position (pushup c) = Up \<and> position (pushup (snd (analyzePushup c e lms angs))) = Down)
        \<longleftrightarrow> (mean_elbow angs < 90 \<and> position (pushup c) = Up)"
    by (auto simp add: analyzePushup_pushup)
  have count: "repCount (pushup (snd (analyzePushup c e lms angs))) =
       (if mean_elbow angs > 160 \<and> position (pushup c) = Down
        then repCount (pushup c) + 1 else repCount (pushup c))"
    by (simp add: analyzePushup_pushup)
  have other: "repCount (pushup (snd (analyzeHandstand c e lms angs))) = repCount (pushup c)"
    by simp
  from init up down count other rep_counts_sequence [of frames callback] show ?thesis
    by blast
qed

theorem pushup_rep_counter_witness:
  "rep_counts (newPoseCoach False)
     [(\<lparr>clock = 1, rnd = 0\<rparr>, None, zero_angles\<lparr>elbow_angle_left := 220, elbow_angle_right := 180\<rparr>),
      (\<lparr>clock = 2, rnd = 0\<rparr>, None, zero_angles\<lparr>elbow_angle_left := 200, elbow_angle_right := 200\<rparr>),
      (\<lparr>clock = 3, rnd = 0\<rparr>, None, zero_angles\<lparr>elbow_angle_left := 200, elbow_angle_right := 200\<rparr>),
      (\<lparr>clock = 4, rnd = 0\<rparr>, None, zero_angles\<lparr>elbow_angle_left := 40, elbow_angle_right := 60\<rparr>),
      (\<lparr>clock = 5, rnd = 0\<rparr>, None, zero_angles\<lparr>elbow_angle_left := 50, elbow_angle_right := 50\<rparr>),
      (\<lparr>clock = 6, rnd = 0\<rparr>, None, zero_angles\<lparr>elbow_angle_left := 200, elbow_angle_right := 200\<rparr>)]
     = [0, 0, 0, 0, 0, 1]
   \<and> position (pushup (snd (analyzePushup (newPoseCoach False) \<lparr>clock = 1, rnd = 0\<rparr> None
        (zero_angles\<lparr>elbow_angle_left := 80, elbow_angle_right := 90\<rparr>)))) = Down"
  using pushup_rep_counter [of False "newPoseCoach False" "\<lparr>clock = 1, rnd = 0\<rparr>" None
     "zero_angles\<lparr>elbow_angle_left := 80, elbow_angle_right := 90\<rparr>"
     "[(\<lparr>clock = 1, rnd = 0\<rparr>, None, zero_angles\<lparr>elbow_angle_left := 220, elbow_angle_right := 180\<rparr>),
      (\<lparr>clock = 2, rnd = 0\<rparr>, None, zero_angles\<lparr>elbow_angle_left := 200, elbow_angle_right := 200\<rparr>),
      (\<lparr>clock = 3, rnd = 0\<rparr>, None, zero_angles\<lparr>elbow_angle_left := 200, elbow_angle_right := 200\<rparr>),
      (\<lparr>clock = 4, rnd = 0\<rparr>, None, zero_angles\<lparr>elbow_angle_left := 40, elbow_angle_right := 60\<rparr>),
      (\<lparr>clock = 5, rnd = 0\<rparr>, None, zero_angles\<lparr>elbow_angle_left := 50, elbow_angle_right := 50\<rparr>),
      (\<lparr>clock = 6, rnd = 0\<rparr>, None, zero_angles\<lparr>elbow_angle_left := 200, elbow_angle_right := 200\<rparr>)]"]
  by (simp add: mean_elbow_def zero_angles_def newPoseCoach_def initialExerciseState_def)

section \<open>The push-up decision ladder\<close>

lemma pushup_ladder_bent:
  "l < 70 \<or> r < 70 \<Longrightarrow>
     fst (pushup_ladder c e lms l r) =
       \<lparr>primaryFeedback = warning_sign @ '' Arms too bent - push higher!'',
        tips = [''Extend your arms more to complete the push-up''],
        priority = Critical, motivational = []\<rparr>"
  by (simp add: pushup_ladder_def add_tip_def blank_feedback_def)

lemma analyzePushup_primary:
  "primaryFeedback (fst (analyzePushup c e lms angs)) =
     primaryFeedback (fst (pushup_ladder (pushup_rep_step c e (mean_elbow angs)) e lms
        (elbow_angle_left angs) (elbow_angle_right angs)))"
  "priority (fst (analyzePushup c e lms angs)) =
     priority (fst (pushup_ladder (pushup_rep_step c e (mean_elbow angs)) e lms
        (elbow_angle_left angs) (elbow_angle_right angs)))"
  by (simp_all add: analyzePushup_def Let_def split_def mean_elbow_def)

lemma analyzePushup_bent:
  assumes "elbow_angle_left angs < 70 \<or> elbow_angle_right angs < 70"
  shows "priority (fst (analyzePushup c e lms angs)) = Critical"
    and "primaryFeedback (fst (analyzePushup c e lms angs)) =
           warning_sign @ '' Arms too bent - push higher!''"
  using assms by (simp_all add: analyzePushup_primary pushup_ladder_bent)

lemma analyzeAndCoach_history:
  "l \<noteq> [] \<Longrightarrow>
     frameHistory (snd (analyzeAndCoach c e (Some l) exerciseType)) =
       (if length (frameHistory c) \<ge> maxHistoryFrames
        then tl (frameHistory c) else frameHistory c)
       @ [\<lparr>timestamp = clock e,
           feedback = fst (generateFeedback c e (Some l) (verifyPosture (Some l) exerciseType)
                             exerciseType),
           angles = verifyPosture (Some l) exerciseType\<rparr>]"
  by (cases "frameHistory c") (simp_all add: analyzeAndCoach_def Let_def split_def maxHistoryFrames_def)

lemma analyzeAndCoach_last:
  "l \<noteq> [] \<Longrightarrow>
     last (frameHistory (snd (analyzeAndCoach c e (Some l) exerciseType))) =
       \<lparr>timestamp = clock e,
        feedback = fst (generateFeedback c e (Some l) (verifyPosture (Some l) exerciseType)
                          exerciseType),
        angles = verifyPosture (Some l) exerciseType\<rparr>"
  by (simp add: analyzeAndCoach_history)

lemma analyzeAndCoach_absent_state: "snd (analyzeAndCoach c e None exerciseType) = c"
  by (simp add: analyzeAndCoach_def)

lemma bent_frame_feedback:
  "fst (generateFeedback c e (Some [\<lparr>x = 0, y = 0\<rparr>])
         (verifyPosture (Some [\<lparr>x = 0, y = 0\<rparr>]) ''pushup'') ''pushup'') =
     \<lparr>primaryFeedback = warning_sign @ '' Arms too bent - push higher!'',
      tips = [''Extend your arms more to complete the push-up''],
      priority = Critical, motivational = []\<rparr>"
  by (simp add: generateFeedback_def analyzePushup_def Let_def split_def verifyPosture_def
      pushup_angles_eq landmark_at_def calculateAngle_def zero_angles_def pushup_ladder_bent
      checkHeadPosition_def)

lemma unknown_exercise_feedback:
  "fst (generateFeedback c e lms angs ''squat'') =
     \<lparr>primaryFeedback = ''Select an exercise type'', tips = [], priority = Minor,
      motivational = []\<rparr>"
  by (simp add: generateFeedback_def)

text \<open>
  C9. Whenever the left or the right elbow angle is below 70, the feedback of
  \<open>analyzePushup\<close> has priority \<open>critical\<close> and the message "Arms too bent - push
  higher!", whatever the other angles, the landmarks, the coach state and the
  environment; so it is for a left elbow angle of 60. For a non-empty frame whose
  computed elbow angle is below 70, the entry \<open>analyzeAndCoach\<close> appends to the history
  carries this feedback.
\<close>

theorem pushup_bent_arms_critical:
  "(elbow_angle_left angs < 70 \<or> elbow_angle_right angs < 70 \<longrightarrow>
      priority (fst (analyzePushup c e lms angs)) = Critical
      \<and> primaryFeedback (fst (analyzePushup c e lms angs)) =
          warning_sign @ '' Arms too bent - push higher!'')
   \<and> (elbow_angle_left angs = 60 \<longrightarrow> priority (fst (analyzePushup c e lms angs)) = Critical)
   \<and> (l \<noteq> [] \<and> (elbow_angle_left (verifyPosture (Some l) ''pushup'') < 70
                  \<or> elbow_angle_right (verifyPosture (Some l) ''pushup'') < 70) \<longrightarrow>
        priority (feedback (last (frameHistory (snd (analyzeAndCoach c e (Some l) ''pushup'')))))
          = Critical
        \<and> primaryFeedback
            (feedback (last (frameHistory (snd (analyzeAndCoach c e (Some l) ''pushup'')))))
          = warning_sign @ '' Arms too bent - push higher!'')"
proof -
  have ladder: "elbow_angle_left angs < 70 \<or> elbow_angle_right angs < 70 \<longrightarrow>
      priority (fst (analyzePushup c e lms angs)) = Critical
      \<and> primaryFeedback (fst (analyzePushup c e lms angs)) =
          warning_sign @ '' Arms too bent - push higher!''"
    using analyzePushup_bent [of angs c e lms] by blast
  have sixty: "elbow_angle_left angs = 60 \<longrightarrow> priority (fst (analyzePushup c e lms angs)) = Critical"
    using analyzePushup_bent(1) [of angs c e lms] by simp
  have frame: "l \<noteq> [] \<and> (elbow_angle_left (verifyPosture (Some l) ''pushup'') < 70
                  \<or> elbow_angle_right (verifyPosture (Some l) ''pushup'') < 70) \<longrightarrow>
        priority (feedback (last (frameHistory (snd (analyzeAndCoach c e (Some l) ''pushup'')))))
          = Critical
        \<and> primaryFeedback
            (feedback (last (frameHistory (snd (analyzeAndCoach c e (Some l) ''pushup'')))))
          = warning_sign @ '' Arms too bent - push higher!''"
    using analyzePushup_bent [of "verifyPosture (Some l) ''pushup''" c e "Some l"]
    by (simp add: analyzeAndCoach_last generateFeedback_def)
  from ladder sixty frame show ?thesis by blast
qed

theorem pushup_bent_arms_critical_witness:
  "priority (fst (analyzePushup (newPoseCoach False) \<lparr>clock = 0, rnd = 0\<rparr>
       (Some [\<lparr>x = 0, y = 0\<rparr>])
       \<lparr>elbow_angle_left = 60, elbow_angle_right = 100,
        shoulder_hip_ankle_angle_left = 175, shoulder_hip_ankle_angle_right = 175\<rparr>)) = Critical
   \<and> priority (feedback (last (frameHistory (snd (analyzeAndCoach (newPoseCoach False)
        \<lparr>clock = 0, rnd = 0\<rparr> (Some [\<lparr>x = 0, y = 0\<rparr>]) ''pushup''))))) = Critical"
  using pushup_bent_arms_critical [of
      "\<lparr>elbow_angle_left = 60, elbow_angle_right = 100,
        shoulder_hip_ankle_angle_left = 175, shoulder_hip_ankle_angle_right = 175\<rparr>"
      "newPoseCoach False" "\<lparr>clock = 0, rnd = 0\<rparr>" "Some [\<lparr>x = 0, y = 0\<rparr>]" "[\<lparr>x = 0, y = 0\<rparr>]"]
  by (simp add: verifyPosture_def pushup_angles_eq landmark_at_def calculateAngle_def zero_angles_def)

section \<open>Frame history and session statistics\<close>

lemma analyzeAndCoach_history_bound:
  assumes "length (frameHistory c) \<le> maxHistoryFrames"
  shows "length (frameHistory (snd (analyzeAndCoach c e lms exerciseType))) \<le> maxHistoryFrames"
proof (cases lms)
  case None
  with assms show ?thesis by (simp add: analyzeAndCoach_def)
next
  case (Some l)
  show ?thesis
  proof (cases "l = []")
    case True
    with Some assms show ?thesis by (simp add: analyzeAndCoach_def)
  next
    case False
    with Some assms show ?thesis
      by (simp add: analyzeAndCoach_history maxHistoryFrames_def)
  qed
qed

lemma session_history_bound:
  "length (frameHistory c) \<le> maxHistoryFrames \<Longrightarrow>
     length (frameHistory (session c calls)) \<le> maxHistoryFrames"
proof (induction calls arbitrary: c)
  case Nil
  then show ?case by (simp add: session_def)
next
  case (Cons a calls)
  obtain lms exerciseType e where a: "a = (lms, exerciseType, e)" by (cases a)
  have "length (frameHistory (coach_call c a)) \<le> maxHistoryFrames"
    using Cons.prems a by (simp add: coach_call_def analyzeAndCoach_history_bound)
  from Cons.IH [OF this] show ?case by (simp add: session_def)
qed

lemma good_form_iff:
  "good_form f \<longleftrightarrow> priority (feedback f) \<noteq> Major \<and> priority (feedback f) \<noteq> Critical"
  by (cases "priority (feedback f)") (simp_all add: good_form_def)

lemma getSessionStats_fields:
  "totalFrames (getSessionStats c) = length (frameHistory c)"
  "goodFormFrames (getSessionStats c) = length (filter good_form (frameHistory c))"
  "goodFormPercentage (getSessionStats c) =
     round (100 * real (length (filter good_form (frameHistory c))) / real (length (frameHistory c)))"
  by (simp_all add: getSessionStats_def Let_def mult.commute)

lemma new_coach_history: "frameHistory (newPoseCoach callback) = []"
  by (simp add: newPoseCoach_def)

text \<open>
  C10. After any sequence of \<open>analyzeAndCoach\<close> calls on a new coach the history holds
  at most 10 entries, so \<open>totalFrames\<close> is at most 10. In every state \<open>totalFrames\<close> is
  the length of the history, \<open>goodFormFrames\<close> counts the entries whose priority is
  \<open>success\<close> or \<open>minor\<close>, which are those whose priority is neither \<open>major\<close> nor
  \<open>critical\<close>, and \<open>goodFormPercentage\<close> is \<open>round (100 * goodFormFrames / totalFrames)\<close>;
  on an empty history the three fields are 0. The statistics returned with a frame are
  those of the state the call leaves.
\<close>

theorem session_stats_bounded:
  "length (frameHistory (session (newPoseCoach callback) calls)) \<le> 10
   \<and> totalFrames (getSessionStats (session (newPoseCoach callback) calls)) \<le> 10
   \<and> totalFrames (getSessionStats c) = length (frameHistory c)
   \<and> goodFormFrames (getSessionStats c) =
       length (filter (\<lambda>f. priority (feedback f) = Success \<or> priority (feedback f) = Minor)
                 (frameHistory c))
   \<and> goodFormFrames (getSessionStats c) =
       length (filter (\<lambda>f. priority (feedback f) \<noteq> Major \<and> priority (feedback f) \<noteq> Critical)
                 (frameHistory c))
   \<and> goodFormPercentage (getSessionStats c) =
       round (100 * real (goodFormFrames (getSessionStats c)) / real (totalFrames (getSessionStats c)))
   \<and> (frameHistory c = [] \<longrightarrow>
        getSessionStats c = \<lparr>totalFrames = 0, goodFormFrames = 0, goodFormPercentage = 0\<rparr>)
   \<and> (l \<noteq> [] \<longrightarrow>
        sessionStats (fst (analyzeAndCoach c e (Some l) exerciseType)) =
          Some (getSessionStats (snd (analyzeAndCoach c e (Some l) exerciseType))))"
proof -
  have bound: "length (frameHistory (session (newPoseCoach callback) calls)) \<le> 10"
    using session_history_bound [of "newPoseCoach callback" calls]
    by (simp add: new_coach_history maxHistoryFrames_def)
  then have total: "totalFrames (getSessionStats (session (newPoseCoach callback) calls)) \<le> 10"
    by (simp add: getSessionStats_fields)
  have good: "goodFormFrames (getSessionStats c) =
       length (filter (\<lambda>f. priority (feedback f) = Success \<or> priority (feedback f) = Minor)
                 (frameHistory c))"
    by (simp add: getSessionStats_fields good_form_def [abs_def])
  have bad: "goodFormFrames (getSessionStats c) =
       length (filter (\<lambda>f. priority (feedback f) \<noteq> Major \<and> priority (feedback f) \<noteq> Critical)
                 (frameHistory c))"
    by (simp add: getSessionStats_fields good_form_iff [abs_def])
  have pct: "goodFormPercentage (getSessionStats c) =
       round (100 * real (goodFormFrames (getSessionStats c)) / real (totalFrames (getSessionStats c)))"
    by (simp add: getSessionStats_fields)
  have empty: "frameHistory c = [] \<longrightarrow>
        getSessionStats c = \<lparr>totalFrames = 0, goodFormFrames = 0, goodFormPercentage = 0\<rparr>"
    by (simp add: getSessionStats_def)
  have returned: "l \<noteq> [] \<longrightarrow>
        sessionStats (fst (analyzeAndCoach c e (Some l) exerciseType)) =
          Some (getSessionStats (snd (analyzeAndCoach c e (Some l) exerciseType)))"
    by (simp add: analyzeAndCoach_def Let_def split_def)
  from bound total good bad pct empty returned getSessionStats_fields(1) [of c]
  show ?thesis by blast
qed

theorem session_stats_bounded_witness:
  "getSessionStats (newPoseCoach False) =
     \<lparr>totalFrames = 0, goodFormFrames = 0, goodFormPercentage = 0\<rparr>
   \<and> sessionStats (fst (analyzeAndCoach (newPoseCoach False) \<lparr>clock = 7, rnd = 0\<rparr>
        (Some [\<lparr>x = 0, y = 0\<rparr>]) ''squat'')) =
       Some \<lparr>totalFrames = 1, goodFormFrames = 1, goodFormPercentage = 100\<rparr>
   \<and> getSessionStats (session (newPoseCoach False)
        [(Some [\<lparr>x = 0, y = 0\<rparr>], ''pushup'', \<lparr>clock = 1, rnd = 0\<rparr>),
         (Some [\<lparr>x = 0, y = 0\<rparr>], ''squat'', \<lparr>clock = 2, rnd = 0\<rparr>),
         (None, ''pushup'', \<lparr>clock = 3, rnd = 0\<rparr>)]) =
       \<lparr>totalFrames = 2, goodFormFrames = 1, goodFormPercentage = 50\<rparr>"
  using session_stats_bounded [of False
      "[(Some [\<lparr>x = 0, y = 0\<rparr>], ''pushup'', \<lparr>clock = 1, rnd = 0\<rparr>),
         (Some [\<lparr>x = 0, y = 0\<rparr>], ''squat'', \<lparr>clock = 2, rnd = 0\<rparr>),
         (None, ''pushup'', \<lparr>clock = 3, rnd = 0\<rparr>)]"
      "newPoseCoach False" "[\<lparr>x = 0, y = 0\<rparr>]"
      "\<lparr>clock = 7, rnd = 0\<rparr>" "''squat''"]
    session_stats_bounded [of False "[]" "session (newPoseCoach False)
        [(Some [\<lparr>x = 0, y = 0\<rparr>], ''pushup'', \<lparr>clock = 1, rnd = 0\<rparr>),
         (Some [\<lparr>x = 0, y = 0\<rparr>], ''squat'', \<lparr>clock = 2, rnd = 0\<rparr>),
         (None, ''pushup'', \<lparr>clock = 3, rnd = 0\<rparr>)]" "[\<lparr>x = 0, y = 0\<rparr>]"
      "\<lparr>clock = 7, rnd = 0\<rparr>" "''squat''"]
  by (simp add: session_def coach_call_def analyzeAndCoach_history bent_frame_feedback
      unknown_exercise_feedback new_coach_history maxHistoryFrames_def analyzeAndCoach_absent_state
      getSessionStats_def good_form_def Let_def round_def)

section \<open>The consistency filter\<close>

subsection \<open>Tally\<close>

lemma count_message_map_of:
  "map_of (count_message cs k) k' =
     (if k' = k then Some (case map_of cs k of None \<Rightarrow> 1 | Some n \<Rightarrow> n + 1) else map_of cs k')"
  by (induction cs k rule: count_message.induct) auto

lemma count_message_keys:
  "fst ` set (count_message cs k) = insert k (fst ` set cs)"
  by (induction cs k rule: count_message.induct) auto

lemma count_message_distinct:
  "distinct (map fst cs) \<Longrightarrow> distinct (map fst (count_message cs k))"
proof (induction cs k rule: count_message.induct)
  case (1 k)
  then show ?case by simp
next
  case (2 k' n rest k)
  then show ?case
    using count_message_keys [of rest k] by auto
qed

lemma tally_distinct:
  "distinct (map fst cs) \<Longrightarrow> distinct (map fst (foldl count_message cs ks))"
  by (induction ks arbitrary: cs) (simp_all add: count_message_distinct)

lemma tally_map_of:
  "map_of (foldl count_message cs ks) k =
     (if count_list ks k = 0 then map_of cs k
      else Some ((case map_of cs k of None \<Rightarrow> 0 | Some n \<Rightarrow> n) + count_list ks k))"
  by (induction ks arbitrary: cs) (auto simp add: count_message_map_of split: option.splits)

lemma feedbackCount_tally:
  "feedbackCount recent = foldl count_message [] (map (\<lambda>f. primaryFeedback (feedback f)) recent)"
  by (simp add: feedbackCount_def foldl_map)

lemma count_list_occurrences:
  "count_list (map (\<lambda>f. primaryFeedback (feedback f)) w) m = occurrences m w"
  by (induction w) (simp_all add: occurrences_def)

lemma feedbackCount_entries:
  "(m, n) \<in> set (feedbackCount w) \<longleftrightarrow> occurrences m w > 0 \<and> n = occurrences m w"
proof -
  have d: "distinct (map fst (feedbackCount w))"
    by (simp add: feedbackCount_tally tally_distinct)
  have "(m, n) \<in> set (feedbackCount w) \<longleftrightarrow> map_of (feedbackCount w) m = Some n"
    using d by simp
  also have "\<dots> \<longleftrightarrow> occurrences m w > 0 \<and> n = occurrences m w"
    by (auto simp add: feedbackCount_tally tally_map_of count_list_occurrences)
  finally show ?thesis .
qed

lemma feedbackCount_distinct: "distinct (feedbackCount w)"
proof -
  have "distinct (map fst (feedbackCount w))"
    by (simp add: feedbackCount_tally tally_distinct)
  then show ?thesis by (rule distinct_map [THEN iffD1, THEN conjunct1])
qed

subsection \<open>At most one message reaches 70 percent\<close>

lemma occurrences_two:
  "m \<noteq> m' \<Longrightarrow> occurrences m w + occurrences m' w \<le> length w"
  by (induction w) (auto simp add: occurrences_def)

lemma consistent_unique:
  assumes "w \<noteq> []" and "consistent_in m w" and "consistent_in m' w"
  shows "m = m'"
proof (rule ccontr)
  assume "m \<noteq> m'"
  then have "occurrences m w + occurrences m' w \<le> length w"
    by (rule occurrences_two)
  moreover from assms(1) have "length w > 0" by simp
  moreover from assms(2,3) have "7 * length w \<le> 10 * occurrences m w"
      and "7 * length w \<le> 10 * occurrences m' w"
    by (simp_all add: consistent_in_def)
  ultimately show False by arith
qed

lemma threshold_iff:
  "real n \<ge> consistencyThreshold * real (length w) \<longleftrightarrow> 10 * n \<ge> 7 * length w"
proof -
  have "real n \<ge> consistencyThreshold * real (length w) \<longleftrightarrow> real (7 * length w) \<le> real (10 * n)"
    by (simp add: consistencyThreshold_def mult.commute)
  then show ?thesis
    by (simp only: of_nat_le_iff)
qed

lemma occurrences_distinct:
  "distinct (map (\<lambda>f. primaryFeedback (feedback f)) w) \<Longrightarrow> occurrences m w \<le> 1"
proof (induction w)
  case Nil
  then show ?case by (simp add: occurrences_def)
next
  case (Cons a w)
  show ?case
  proof (cases "primaryFeedback (feedback a) = m")
    case True
    with Cons.prems have "m \<notin> (\<lambda>f. primaryFeedback (feedback f)) ` set w"
      by simp
    then have "\<forall>f \<in> set w. primaryFeedback (feedback f) \<noteq> m"
      by blast
    then have "filter (\<lambda>f. primaryFeedback (feedback f) = m) w = []"
      by (simp add: filter_empty_conv)
    with True show ?thesis by (simp add: occurrences_def)
  next
    case False
    with Cons show ?thesis by (simp add: occurrences_def)
  qed
qed

subsection \<open>The selection loop\<close>

lemma consensus_step_skip:
  "\<not> 10 * n \<ge> 7 * length w \<Longrightarrow> consensus_step w acc (m, n) = acc"
  by (simp add: consensus_step_def threshold_iff)

lemma consensus_fold_skip:
  "(\<And>m n. (m, n) \<in> set es \<Longrightarrow> \<not> 10 * n \<ge> 7 * length w) \<Longrightarrow>
     foldl (consensus_step w) acc es = acc"
proof (induction es arbitrary: acc)
  case Nil
  then show ?case by simp
next
  case (Cons a es)
  obtain m n where a: "a = (m, n)" by (cases a)
  have "consensus_step w acc a = acc"
    using Cons.prems [of m n] a by (simp add: consensus_step_skip)
  moreover have "foldl (consensus_step w) acc es = acc"
    using Cons.prems by (intro Cons.IH) auto
  ultimately show ?case by simp
qed

lemma consensus_fold_single:
  assumes "distinct es" and "(m, n) \<in> set es"
    and "\<And>m' n'. (m', n') \<in> set es \<Longrightarrow> (m', n') \<noteq> (m, n) \<Longrightarrow> \<not> 10 * n' \<ge> 7 * length w"
  shows "foldl (consensus_step w) acc es = consensus_step w acc (m, n)"
  using assms
proof (induction es arbitrary: acc)
  case Nil
  then show ?case by simp
next
  case (Cons a es)
  show ?case
  proof (cases "a = (m, n)")
    case True
    with Cons.prems(1) have "(m, n) \<notin> set es" by simp
    then have "foldl (consensus_step w) (consensus_step w acc a) es = consensus_step w acc a"
      using Cons.prems(3) by (intro consensus_fold_skip) auto
    with True show ?thesis by simp
  next
    case False
    obtain m' n' where a: "a = (m', n')" by (cases a)
    have "consensus_step w acc a = acc"
      using Cons.prems(3) [of m' n'] a False by (simp add: consensus_step_skip)
    moreover have "foldl (consensus_step w) acc es = consensus_step w acc (m, n)"
      using Cons.prems False by (intro Cons.IH) auto
    ultimately show ?thesis by simp
  qed
qed

lemma find_message:
  "occurrences m w > 0 \<Longrightarrow>
     \<exists>frame. find (\<lambda>f. primaryFeedback (feedback f) = m) w = Some frame
       \<and> frame \<in> set w \<and> primaryFeedback (feedback frame) = m"
  by (induction w) (auto simp add: occurrences_def split: if_splits)

lemma recentFrames_nonempty: "h \<noteq> [] \<Longrightarrow> recentFrames h \<noteq> []"
  by (cases h) (simp_all add: recentFrames_def)

lemma recentFrames_window:
  "length (recentFrames h) = min 5 (length h)"
  "(take (length h - 5) h) @ recentFrames h = h"
  by (simp_all add: recentFrames_def)

lemma feedback_eta:
  "\<lparr>primaryFeedback = primaryFeedback fb, tips = tips fb, priority = priority fb,
    motivational = motivational fb\<rparr> = (fb :: feedback)"
  by simp

lemma getConsistentFeedback_consistent:
  assumes h: "frameHistory c \<noteq> []"
    and cons: "consistent_in m (recentFrames (frameHistory c))"
    and m: "m \<noteq> []"
  shows "\<exists>frame \<in> set (recentFrames (frameHistory c)).
           primaryFeedback (feedback frame) = m \<and> getConsistentFeedback c = feedback frame"
proof -
  define w where "w = recentFrames (frameHistory c)"
  define n where "n = occurrences m w"
  define start where "start = \<lparr>mostFrequent = [], maxCount = 0, mostFrequentPriority = Minor,
      mostFrequentTips = [], mostFrequentMotivational = []\<rparr>"
  have w: "w \<noteq> []" using h by (simp add: w_def recentFrames_nonempty)
  have q: "7 * length w \<le> 10 * n" using cons by (simp add: consistent_in_def w_def n_def)
  with w have pos: "n > 0" by (cases w) auto
  then have entry: "(m, n) \<in> set (feedbackCount w)"
    by (simp add: feedbackCount_entries n_def)
  have others: "\<not> 10 * n' \<ge> 7 * length w"
    if "(m', n') \<in> set (feedbackCount w)" and "(m', n') \<noteq> (m, n)" for m' n'
  proof
    assume "7 * length w \<le> 10 * n'"
    moreover from that(1) have n': "n' = occurrences m' w"
      by (simp add: feedbackCount_entries)
    ultimately have "consistent_in m' w" by (simp add: consistent_in_def)
    with w cons have "m = m'" by (intro consistent_unique [of w m m']) (simp_all add: w_def)
    with n' that(2) show False by (simp add: n_def)
  qed
  have fold: "foldl (consensus_step w) start (feedbackCount w) = consensus_step w start (m, n)"
    using feedbackCount_distinct entry others by (rule consensus_fold_single)
  from pos obtain frame where frame: "find (\<lambda>f. primaryFeedback (feedback f) = m) w = Some frame"
      "frame \<in> set w" "primaryFeedback (feedback frame) = m"
    using find_message [of m w] by (auto simp add: n_def)
  have step: "consensus_step w start (m, n) =
      \<lparr>mostFrequent = m, maxCount = n, mostFrequentPriority = priority (feedback frame),
       mostFrequentTips = tips (feedback frame),
       mostFrequentMotivational = motivational (feedback frame)\<rparr>"
    using pos q frame(1) by (simp add: consensus_step_def threshold_iff start_def)
  have "getConsistentFeedback c =
      \<lparr>primaryFeedback = m, tips = tips (feedback frame), priority = priority (feedback frame),
       motivational = motivational (feedback frame)\<rparr>"
    using h m fold step by (simp add: getConsistentFeedback_def Let_def w_def [symmetric] start_def [symmetric])
  also have "\<dots> = feedback frame"
    using frame(3) feedback_eta [of "feedback frame"] by simp
  finally show ?thesis using frame(2,3) by (auto simp add: w_def)
qed

lemma getConsistentFeedback_latest:
  assumes h: "frameHistory c \<noteq> []"
    and none: "\<And>m. \<not> consistent_in m (recentFrames (frameHistory c))"
  shows "getConsistentFeedback c = feedback (last (frameHistory c))"
proof -
  define w where "w = recentFrames (frameHistory c)"
  define start where "start = \<lparr>mostFrequent = [], maxCount = 0, mostFrequentPriority = Minor,
      mostFrequentTips = [], mostFrequentMotivational = []\<rparr>"
  have "\<not> 10 * n \<ge> 7 * length w" if "(m, n) \<in> set (feedbackCount w)" for m n
    using that none [of m] by (simp add: feedbackCount_entries consistent_in_def w_def)
  then have "foldl (consensus_step w) start (feedbackCount w) = start"
    by (rule consensus_fold_skip)
  then show ?thesis
    using h by (simp add: getConsistentFeedback_def Let_def w_def [symmetric] start_def [symmetric])
      (simp add: start_def)
qed

subsection \<open>No frame of the coach carries an empty message\<close>

lemma pushup_ladder_message: "primaryFeedback (fst (pushup_ladder c e lms l r)) \<noteq> []"
  by (simp add: pushup_ladder_def Let_def blank_feedback_def)

lemma handstand_ladder_message: "primaryFeedback (fst (handstand_ladder c e lms angs)) \<noteq> []"
  by (simp add: handstand_ladder_def Let_def blank_feedback_def)

lemma generateFeedback_message:
  "primaryFeedback (fst (generateFeedback c e lms angs exerciseType)) \<noteq> []"
  by (simp add: generateFeedback_def analyzePushup_primary pushup_ladder_message
      analyzeHandstand_def Let_def split_def handstand_ladder_message)

lemma analyzeAndCoach_messages:
  assumes "messages_present c"
  shows "messages_present (snd (analyzeAndCoach c e lms exerciseType))"
proof (cases lms)
  case None
  with assms show ?thesis by (simp add: analyzeAndCoach_def)
next
  case (Some l)
  show ?thesis
  proof (cases "l = []")
    case True
    with Some assms show ?thesis by (simp add: analyzeAndCoach_def)
  next
    case False
    have "set (tl (frameHistory c)) \<subseteq> set (frameHistory c)"
      by (cases "frameHistory c") auto
    with False Some assms show ?thesis
      by (auto simp add: messages_present_def analyzeAndCoach_history generateFeedback_message)
  qed
qed

lemma session_messages:
  "messages_present c \<Longrightarrow> messages_present (session c calls)"
proof (induction calls arbitrary: c)
  case Nil
  then show ?case by (simp add: session_def)
next
  case (Cons a calls)
  obtain lms exerciseType e where a: "a = (lms, exerciseType, e)" by (cases a)
  have "messages_present (coach_call c a)"
    using Cons.prems a by (simp add: coach_call_def analyzeAndCoach_messages)
  from Cons.IH [OF this] show ?case by (simp add: session_def)
qed

lemma new_coach_messages: "messages_present (newPoseCoach callback)"
  by (simp add: messages_present_def newPoseCoach_def)

lemma analyzeAndCoach_consistent:
  "l \<noteq> [] \<Longrightarrow>
     feedback.truncate (fst (analyzeAndCoach c e (Some l) exerciseType)) =
       getConsistentFeedback (snd (analyzeAndCoach c e (Some l) exerciseType))"
  by (simp add: analyzeAndCoach_def Let_def split_def feedback.truncate_def)

text \<open>
  C2. In every state a session reaches with a non-empty history, the window of the
  filter is the last five entries of the history, or all of it when it is shorter. A
  message that at least 70 percent of the window's frames carry is emitted together with
  the tips, priority and motivational line of a frame of the window that carries it.
  When no message reaches 70 percent, the feedback of the most recent frame is emitted
  unchanged. So a message carried by 4 of 5 frames is the stable output, and 5 pairwise
  distinct messages yield the most recent frame's feedback. The feedback fields
  \<open>analyzeAndCoach\<close> returns for a frame are the filter's output on the state it leaves.
\<close>

theorem consistent_feedback_window:
  assumes "c = session (newPoseCoach callback) calls" and "frameHistory c \<noteq> []"
  shows "length (recentFrames (frameHistory c)) = min 5 (length (frameHistory c))
   \<and> take (length (frameHistory c) - 5) (frameHistory c) @ recentFrames (frameHistory c)
       = frameHistory c
   \<and> (consistent_in m (recentFrames (frameHistory c)) \<longrightarrow>
        (\<exists>frame \<in> set (recentFrames (frameHistory c)).
            primaryFeedback (feedback frame) = m \<and> getConsistentFeedback c = feedback frame))
   \<and> ((\<forall>m'. \<not> consistent_in m' (recentFrames (frameHistory c))) \<longrightarrow>
        getConsistentFeedback c = feedback (last (frameHistory c)))
   \<and> (length (recentFrames (frameHistory c)) = 5
        \<and> occurrences m (recentFrames (frameHistory c)) = 4 \<longrightarrow>
        primaryFeedback (getConsistentFeedback c) = m)
   \<and> (length (recentFrames (frameHistory c)) = 5
        \<and> distinct (map (\<lambda>f. primaryFeedback (feedback f)) (recentFrames (frameHistory c))) \<longrightarrow>
        getConsistentFeedback c = feedback (last (frameHistory c)))
   \<and> (l \<noteq> [] \<longrightarrow>
        feedback.truncate (fst (analyzeAndCoach c e (Some l) exerciseType)) =
          getConsistentFeedback (snd (analyzeAndCoach c e (Some l) exerciseType)))"
proof -
  define w where "w = recentFrames (frameHistory c)"
  have present: "messages_present c"
    using assms(1) by (simp add: session_messages new_coach_messages)
  have w: "w \<noteq> []" using assms(2) by (simp add: w_def recentFrames_nonempty)
  have sub: "set w \<subseteq> set (frameHistory c)"
    by (simp add: w_def recentFrames_def set_drop_subset)
  have cons: "\<exists>frame \<in> set w. primaryFeedback (feedback frame) = m'
                \<and> getConsistentFeedback c = feedback frame"
    if "consistent_in m' w" for m'
  proof -
    from that w have "occurrences m' w > 0"
      by (cases w) (auto simp add: consistent_in_def)
    then obtain frame where "frame \<in> set w" and "primaryFeedback (feedback frame) = m'"
      using find_message [of m' w] by blast
    with sub present have "m' \<noteq> []"
      by (auto simp add: messages_present_def)
    with assms(2) that show ?thesis
      unfolding w_def by (rule getConsistentFeedback_consistent)
  qed
  have none: "getConsistentFeedback c = feedback (last (frameHistory c))"
    if "\<forall>m'. \<not> consistent_in m' w"
    using assms(2) that unfolding w_def by (intro getConsistentFeedback_latest) simp_all
  have four: "primaryFeedback (getConsistentFeedback c) = m"
    if "length w = 5 \<and> occurrences m w = 4"
  proof -
    from that have "consistent_in m w" by (simp add: consistent_in_def)
    from cons [OF this] show ?thesis by auto
  qed
  have five: "getConsistentFeedback c = feedback (last (frameHistory c))"
    if "length w = 5 \<and> distinct (map (\<lambda>f. primaryFeedback (feedback f)) w)"
  proof -
    have "\<not> consistent_in m' w" for m'
      using that occurrences_distinct [of w m'] by (simp add: consistent_in_def)
    then show ?thesis using none by blast
  qed
  from cons [of m] none four five recentFrames_window [of "frameHistory c"]
    analyzeAndCoach_consistent [of l c e exerciseType]
  show ?thesis unfolding w_def by blast
qed

theorem consistent_feedback_window_witness:
  "primaryFeedback (getConsistentFeedback (session (newPoseCoach False)
      [(Some [\<lparr>x = 0, y = 0\<rparr>], ''pushup'', \<lparr>clock = 1, rnd = 0\<rparr>),
       (Some [\<lparr>x = 0, y = 0\<rparr>], ''pushup'', \<lparr>clock = 2, rnd = 0\<rparr>),
       (Some [\<lparr>x = 0, y = 0\<rparr>], ''squat'', \<lparr>clock = 3, rnd = 0\<rparr>),
       (Some [\<lparr>x = 0, y = 0\<rparr>], ''pushup'', \<lparr>clock = 4, rnd = 0\<rparr>),
       (Some [\<lparr>x = 0, y = 0\<rparr>], ''pushup'', \<lparr>clock = 5, rnd = 0\<rparr>)]))
     = warning_sign @ '' Arms too bent - push higher!''"
  using consistent_feedback_window [of
      "session (newPoseCoach False)
      [(Some [\<lparr>x = 0, y = 0\<rparr>], ''pushup'', \<lparr>clock = 1, rnd = 0\<rparr>),
       (Some [\<lparr>x = 0, y = 0\<rparr>], ''pushup'', \<lparr>clock = 2, rnd = 0\<rparr>),
       (Some [\<lparr>x = 0, y = 0\<rparr>], ''squat'', \<lparr>clock = 3, rnd = 0\<rparr>),
       (Some [\<lparr>x = 0, y = 0\<rparr>], ''pushup'', \<lparr>clock = 4, rnd = 0\<rparr>),
       (Some [\<lparr>x = 0, y = 0\<rparr>], ''pushup'', \<lparr>clock = 5, rnd = 0\<rparr>)]"
      False
      "[(Some [\<lparr>x = 0, y = 0\<rparr>], ''pushup'', \<lparr>clock = 1, rnd = 0\<rparr>),
       (Some [\<lparr>x = 0, y = 0\<rparr>], ''pushup'', \<lparr>clock = 2, rnd = 0\<rparr>),
       (Some [\<lparr>x = 0, y = 0\<rparr>], ''squat'', \<lparr>clock = 3, rnd = 0\<rparr>),
       (Some [\<lparr>x = 0, y = 0\<rparr>], ''pushup'', \<lparr>clock = 4, rnd = 0\<rparr>),
       (Some [\<lparr>x = 0, y = 0\<rparr>], ''pushup'', \<lparr>clock = 5, rnd = 0\<rparr>)]"
      "warning_sign @ '' Arms too bent - push higher!''" "[\<lparr>x = 0, y = 0\<rparr>]"]
  by (simp add: session_def coach_call_def analyzeAndCoach_history bent_frame_feedback
      unknown_exercise_feedback new_coach_history maxHistoryFrames_def recentFrames_def
      occurrences_def warning_sign_def)

end
